theory Spec2Isabelle
  imports
    Complex_Main
    "HOL-Library.Multiset"
    "HOL-Library.Char_ord"
    "HOL-Library.List_Lexorder"
begin

section \<open>Record shapes (types.ts)\<close>

text \<open>
  The TypeScript type \<open>number\<close> holds token counts, identifiers and millisecond time
  stamps. They are integers here (\<open>Type.INTEGER\<close> in the response schema, key generators,
  \<open>Date.now()\<close>), and the model computes on them as \<^typ>\<open>int\<close>: this is what the
  double arithmetic of the platform does as long as every value stays below \<open>2^53\<close> in
  magnitude. The one field that is a fraction, \<open>estimatedCostSavings\<close>, is a
  \<^typ>\<open>rat\<close> holding the exact value of a double (see \<open>binary64\<close> below).
\<close>

record AnalysisResult =
  result_originalTokenCount :: int
  optimizedPrompt :: string
  result_optimizedTokenCount :: int
  explanation :: string

record ReportData =
  totalPrompts :: int
  totalOriginalTokens :: int
  totalOptimizedTokens :: int
  totalSavings :: int
  totalExecutions :: int
  estimatedCostSavings :: rat

record UserProfile =
  user_id :: int
  name :: string
  createdAt :: int

record AnalysisRecord =
  record_id :: int
  username :: string
  timestamp :: int
  originalTokenCount :: int
  optimizedTokenCount :: int
  savings :: int

datatype PromptType = original | optimized

record ExecutionRecord =
  execution_id :: int
  execution_username :: string
  execution_timestamp :: int
  promptType :: PromptType
  promptText :: string
  resultText :: string


section \<open>The persistent store (services/dbService.ts)\<close>

text \<open>
  The database holds three object stores, each keyed by an auto-incrementing \<open>id\<close>.
  \<open>getAll()\<close> returns records in key order, so each store is the list of its records in
  the order they were added, together with the current number of its key generator
  (which \<open>clear()\<close> does not reset). A request either succeeds or fails; no handler of
  the module calls \<open>preventDefault\<close>, so a failed request aborts its transaction and the
  store keeps the state it had before the call. A transaction whose requests all succeed
  completes.
\<close>

record DB =
  users :: "UserProfile list"
  analysisHistory :: "AnalysisRecord list"
  executionHistory :: "ExecutionRecord list"
  userKey :: int
  historyKey :: int
  executionKey :: int

text \<open>The database right after \<open>onupgradeneeded\<close> created the stores.\<close>

definition initDB :: DB where
  "initDB = \<lparr>users = [], analysisHistory = [], executionHistory = [],
             userKey = 1, historyKey = 1, executionKey = 1\<rparr>"

text \<open>How the storage backend behaves during one call.\<close>

datatype backend = Works | OpenFails | RequestFails

text \<open>The values the promises of the module are rejected with.\<close>

datatype rejection =
    ErrorObject string   \<comment> \<open>\<open>new Error(message)\<close>\<close>
  | Reason string        \<comment> \<open>a plain string\<close>
  | RequestError         \<comment> \<open>\<open>request.error\<close>\<close>
  | TransactionError     \<comment> \<open>\<open>transaction.error\<close>\<close>

definition openError :: rejection where
  "openError = Reason ''Error opening database''"

definition duplicateMessage :: "string \<Rightarrow> string" where
  "duplicateMessage n = ''User \"'' @ n @ ''\" might already exist.''"

text \<open>
  \<open>addUser\<close>: the \<open>add\<close> request fails when the backend fails and when the unique index
  on \<open>name\<close> already holds the name (index keys are compared code unit by code unit).
\<close>

definition addUser :: "backend \<Rightarrow> int \<Rightarrow> string \<Rightarrow> DB \<Rightarrow> (rejection + UserProfile) \<times> DB" where
  "addUser b now n s =
     (if b = OpenFails then (Inl openError, s)
      else if b = RequestFails \<or> n \<in> set (map name (users s))
        then (Inl (ErrorObject (duplicateMessage n)), s)
      else
        (let addedUser = \<lparr>user_id = userKey s, name = n, createdAt = now\<rparr>
         in (Inr addedUser, s\<lparr>users := users s @ [addedUser], userKey := userKey s + 1\<rparr>)))"

text \<open>
  \<open>Array.prototype.sort\<close> with a comparison function is stable; for a consistent
  comparison every stable sort returns the same array, computed here by insertion.
\<close>

fun sortInsert :: "('a \<Rightarrow> 'a \<Rightarrow> int) \<Rightarrow> 'a \<Rightarrow> 'a list \<Rightarrow> 'a list" where
  "sortInsert cmp x [] = [x]"
| "sortInsert cmp x (y # ys) =
     (if cmp x y \<le> 0 then x # y # ys else y # sortInsert cmp x ys)"

fun arraySort :: "('a \<Rightarrow> 'a \<Rightarrow> int) \<Rightarrow> 'a list \<Rightarrow> 'a list" where
  "arraySort cmp [] = []"
| "arraySort cmp (x # xs) = sortInsert cmp x (arraySort cmp xs)"

text \<open>
  \<open>getAllUsers\<close>: \<open>localeCompare\<close> is the host's collation, a parameter of the model.
\<close>

definition getAllUsers ::
  "(string \<Rightarrow> string \<Rightarrow> int) \<Rightarrow> backend \<Rightarrow> DB \<Rightarrow> rejection + UserProfile list" where
  "getAllUsers localeCompare b s =
     (if b = OpenFails then Inl openError
      else if b = RequestFails then Inl RequestError
      else Inr (arraySort (\<lambda>a b. localeCompare (name a) (name b)) (users s)))"

definition addAnalysisRecord ::
  "backend \<Rightarrow> int \<Rightarrow> string \<Rightarrow> AnalysisResult \<Rightarrow> DB \<Rightarrow> (rejection + AnalysisRecord) \<times> DB" where
  "addAnalysisRecord b now u analysisResult s =
     (if b = OpenFails then (Inl openError, s)
      else
        (let savings = result_originalTokenCount analysisResult
                         - result_optimizedTokenCount analysisResult;
             record = \<lparr>record_id = historyKey s, username = u, timestamp = now,
                       originalTokenCount = result_originalTokenCount analysisResult,
                       optimizedTokenCount = result_optimizedTokenCount analysisResult,
                       savings = savings\<rparr>
         in if b = RequestFails then (Inl (Reason ''Failed to save analysis record.''), s)
            else (Inr record,
                  s\<lparr>analysisHistory := analysisHistory s @ [record],
                    historyKey := historyKey s + 1\<rparr>)))"

definition getAllHistory :: "backend \<Rightarrow> DB \<Rightarrow> rejection + AnalysisRecord list" where
  "getAllHistory b s =
     (if b = OpenFails then Inl openError
      else if b = RequestFails then Inl RequestError
      else Inr (analysisHistory s))"

definition addExecutionRecord ::
  "backend \<Rightarrow> int \<Rightarrow> string \<Rightarrow> PromptType \<Rightarrow> string \<Rightarrow> string \<Rightarrow> DB
     \<Rightarrow> (rejection + ExecutionRecord) \<times> DB" where
  "addExecutionRecord b now u ty ptext rtext s =
     (if b = OpenFails then (Inl openError, s)
      else
        (let record = \<lparr>execution_id = executionKey s, execution_username = u,
                       execution_timestamp = now, promptType = ty,
                       promptText = ptext, resultText = rtext\<rparr>
         in if b = RequestFails then (Inl (Reason ''Failed to save execution record.''), s)
            else (Inr record,
                  s\<lparr>executionHistory := executionHistory s @ [record],
                    executionKey := executionKey s + 1\<rparr>)))"

definition getAllExecutionHistory :: "backend \<Rightarrow> DB \<Rightarrow> rejection + ExecutionRecord list" where
  "getAllExecutionHistory b s =
     (if b = OpenFails then Inl openError
      else if b = RequestFails then Inl RequestError
      else Inr (executionHistory s))"

text \<open>
  \<open>clearAllData\<close> opens one read-write transaction over the three stores and queues a
  \<open>clear()\<close> on each. The three requests run on the transaction's view of the stores, one
  after the other; the view becomes the database when the transaction completes, and is
  dropped when a request fails.
\<close>

definition clearAllData :: "backend \<Rightarrow> DB \<Rightarrow> (rejection + unit) \<times> DB" where
  "clearAllData b s =
     (if b = OpenFails then (Inl openError, s)
      else
        (let view1 = s\<lparr>users := []\<rparr>;
             view2 = view1\<lparr>analysisHistory := []\<rparr>;
             view3 = view2\<lparr>executionHistory := []\<rparr>
         in if b = RequestFails then (Inl TransactionError, s)
            else (Inr (), view3)))"

text \<open>The calls a client can make on the store, and a run of such calls.\<close>

datatype call =
    AddUser backend int string
  | GetAllUsers backend
  | AddAnalysisRecord backend int string AnalysisResult
  | GetAllHistory backend
  | AddExecutionRecord backend int string PromptType string string
  | GetAllExecutionHistory backend
  | ClearAllData backend

fun perform :: "call \<Rightarrow> DB \<Rightarrow> DB" where
  "perform (AddUser b now n) s = snd (addUser b now n s)"
| "perform (GetAllUsers b) s = s"
| "perform (AddAnalysisRecord b now u r) s = snd (addAnalysisRecord b now u r s)"
| "perform (GetAllHistory b) s = s"
| "perform (AddExecutionRecord b now u ty p r) s = snd (addExecutionRecord b now u ty p r s)"
| "perform (GetAllExecutionHistory b) s = s"
| "perform (ClearAllData b) s = snd (clearAllData b s)"

fun performAll :: "call list \<Rightarrow> DB \<Rightarrow> DB" where
  "performAll [] s = s"
| "performAll (c # cs) s = performAll cs (perform c s)"

fun isClear :: "call \<Rightarrow> bool" where
  "isClear (ClearAllData b) = True"
| "isClear c = False"


section \<open>Numbers of the platform\<close>

text \<open>
  A finite double is the rational number it denotes. \<open>binary64 q\<close> is the double nearest
  to \<open>q\<close>, ties going to the even significand: the result of every arithmetic operation
  and the value of every numeric literal. Doubles beyond the finite range (overflow to
  infinity) do not occur for the magnitudes of this program and are not represented.
\<close>

definition pow2 :: "int \<Rightarrow> rat" where
  "pow2 k = (if 0 \<le> k then 2 ^ nat k else 1 / 2 ^ nat (- k))"

function bitLength :: "int \<Rightarrow> int" where
  "bitLength n = (if n \<le> 0 then 0 else 1 + bitLength (n div 2))"
  by pat_completeness auto
termination
  by (relation "measure nat") auto

declare bitLength.simps [simp del]

definition ilog2 :: "rat \<Rightarrow> int" where
  \<comment> \<open>\<open>\<lfloor>log\<^sub>2 \<bar>q\<bar>\<rfloor>\<close> for \<open>q \<noteq> 0\<close>\<close>
  "ilog2 q =
     (if 1 \<le> \<bar>q\<bar> then bitLength \<lfloor>\<bar>q\<bar>\<rfloor> - 1
      else - bitLength (\<lceil>1 / \<bar>q\<bar>\<rceil> - 1))"

definition roundHalfEven :: "rat \<Rightarrow> int" where
  "roundHalfEven q =
     (let n = \<lfloor>q\<rfloor>; r = q - of_int n
      in if r < 1 / 2 then n else if 1 / 2 < r then n + 1 else if even n then n else n + 1)"

definition binary64 :: "rat \<Rightarrow> rat" where
  "binary64 q =
     (if q = 0 then 0
      else (let e = max (ilog2 q) (- 1022); ulp = pow2 (e - 52)
            in of_int (roundHalfEven (q / ulp)) * ulp))"

definition Number_divide :: "rat \<Rightarrow> rat \<Rightarrow> rat" where
  "Number_divide x y = binary64 (x / y)"

definition Number_multiply :: "rat \<Rightarrow> rat \<Rightarrow> rat" where
  "Number_multiply x y = binary64 (x * y)"


section \<open>Dates of the platform\<close>

text \<open>
  Time values are milliseconds since the epoch, and the functions below are those of the
  language standard for \<open>Date\<close>. All time values are within the range of \<open>Date\<close>,
  where \<open>TimeClip\<close> is the identity.
\<close>

definition msPerDay :: int where
  "msPerDay = 86400000"

definition Day :: "int \<Rightarrow> int" where
  "Day t = t div msPerDay"

definition TimeWithinDay :: "int \<Rightarrow> int" where
  "TimeWithinDay t = t mod msPerDay"

definition DaysInYear :: "int \<Rightarrow> int" where
  "DaysInYear y =
     (if y mod 4 \<noteq> 0 then 365 else if y mod 100 \<noteq> 0 then 366
      else if y mod 400 \<noteq> 0 then 365 else 366)"

definition DayFromYear :: "int \<Rightarrow> int" where
  "DayFromYear y =
     365 * (y - 1970) + (y - 1969) div 4 - (y - 1901) div 100 + (y - 1601) div 400"

text \<open>
  \<open>YearFromTime t\<close> is the largest year that starts at or before \<open>t\<close>. It is one of
  the three years around the estimate that the mean length of a year gives.
\<close>

definition YearFromTime :: "int \<Rightarrow> int" where
  "YearFromTime t =
     (let d = Day t; y = 1970 + (400 * d) div 146097
      in if DayFromYear (y + 1) \<le> d then y + 1
         else if DayFromYear y \<le> d then y else y - 1)"

definition leapDays :: "int \<Rightarrow> int" where
  "leapDays y = (if DaysInYear y = 366 then 1 else 0)"

definition InLeapYear :: "int \<Rightarrow> int" where
  "InLeapYear t = leapDays (YearFromTime t)"

definition DayWithinYear :: "int \<Rightarrow> int" where
  "DayWithinYear t = Day t - DayFromYear (YearFromTime t)"

text \<open>The day within the year on which month \<open>m\<close> (0 to 11) starts.\<close>

definition firstDayOfMonth :: "int \<Rightarrow> int \<Rightarrow> int" where
  "firstDayOfMonth m leap =
     (if m = 0 then 0 else if m = 1 then 31 else if m = 2 then 59 + leap
      else if m = 3 then 90 + leap else if m = 4 then 120 + leap
      else if m = 5 then 151 + leap else if m = 6 then 181 + leap
      else if m = 7 then 212 + leap else if m = 8 then 243 + leap
      else if m = 9 then 273 + leap else if m = 10 then 304 + leap
      else 334 + leap)"

definition MonthFromTime :: "int \<Rightarrow> int" where
  "MonthFromTime t =
     (let d = DayWithinYear t; leap = InLeapYear t
      in if d < 31 then 0 else if d < 59 + leap then 1 else if d < 90 + leap then 2
         else if d < 120 + leap then 3 else if d < 151 + leap then 4
         else if d < 181 + leap then 5 else if d < 212 + leap then 6
         else if d < 243 + leap then 7 else if d < 273 + leap then 8
         else if d < 304 + leap then 9 else if d < 334 + leap then 10 else 11)"

definition DateFromTime :: "int \<Rightarrow> int" where
  "DateFromTime t = DayWithinYear t - firstDayOfMonth (MonthFromTime t) (InLeapYear t) + 1"

definition WeekDay :: "int \<Rightarrow> int" where
  "WeekDay t = (Day t + 4) mod 7"

text \<open>
  The time zone of the host is a parameter, in the form the standard gives it:
  \<open>LocalTZA t isUTC\<close> is the offset of local time from UTC in milliseconds, at the UTC
  time \<open>t\<close> when \<open>isUTC\<close> holds and at the local time \<open>t\<close> otherwise. The offset changes
  with \<open>t\<close> where the zone has daylight saving; a local time that a clock change repeats
  or skips is read with the offset before the change.
\<close>

type_synonym timeZone = "int \<Rightarrow> bool \<Rightarrow> int"

definition LocalTime :: "timeZone \<Rightarrow> int \<Rightarrow> int" where
  "LocalTime LocalTZA t = t + LocalTZA t True"

definition UTC :: "timeZone \<Rightarrow> int \<Rightarrow> int" where
  "UTC LocalTZA t = t - LocalTZA t False"

definition MakeTime :: "int \<Rightarrow> int \<Rightarrow> int \<Rightarrow> int \<Rightarrow> int" where
  "MakeTime hour minute sec ms = hour * 3600000 + minute * 60000 + sec * 1000 + ms"

definition MakeDay :: "int \<Rightarrow> int \<Rightarrow> int \<Rightarrow> int" where
  "MakeDay yr mon date =
     (let ym = yr + mon div 12; mn = mon mod 12
      in DayFromYear ym + firstDayOfMonth mn (leapDays ym) + date - 1)"

definition MakeDate :: "int \<Rightarrow> int \<Rightarrow> int" where
  "MakeDate dy time = dy * msPerDay + time"

text \<open>The methods of \<open>Date\<close> that the report uses, on the time value of the object.\<close>

definition getFullYear :: "timeZone \<Rightarrow> int \<Rightarrow> int" where
  "getFullYear tz t = YearFromTime (LocalTime tz t)"

definition getMonth :: "timeZone \<Rightarrow> int \<Rightarrow> int" where
  "getMonth tz t = MonthFromTime (LocalTime tz t)"

definition getDate :: "timeZone \<Rightarrow> int \<Rightarrow> int" where
  "getDate tz t = DateFromTime (LocalTime tz t)"

definition getDay :: "timeZone \<Rightarrow> int \<Rightarrow> int" where
  "getDay tz t = WeekDay (LocalTime tz t)"

text \<open>\<open>new Date(year, monthIndex, day)\<close>: a year from 0 to 99 stands for 1900 to 1999.\<close>

definition newDate :: "timeZone \<Rightarrow> int \<Rightarrow> int \<Rightarrow> int \<Rightarrow> int" where
  "newDate tz y m dt =
     (let yr = (if 0 \<le> y \<and> y \<le> 99 then 1900 + y else y)
      in UTC tz (MakeDate (MakeDay yr m dt) (MakeTime 0 0 0 0)))"

definition setDate :: "timeZone \<Rightarrow> int \<Rightarrow> int \<Rightarrow> int" where
  "setDate tz t dt =
     (let lt = LocalTime tz t
      in UTC tz (MakeDate (MakeDay (YearFromTime lt) (MonthFromTime lt) dt) (TimeWithinDay lt)))"

definition setHours :: "timeZone \<Rightarrow> int \<Rightarrow> int \<Rightarrow> int \<Rightarrow> int \<Rightarrow> int \<Rightarrow> int" where
  "setHours tz t hour minute sec ms =
     (let lt = LocalTime tz t
      in UTC tz (MakeDate (Day lt) (MakeTime hour minute sec ms)))"


section \<open>The usage report (calculateReportData)\<close>

datatype Period = PDay | PWeek | PMonth | PYear | PAll

definition COST_PER_MILLION_TOKENS :: rat where
  "COST_PER_MILLION_TOKENS = binary64 (35 / 100)"

text \<open>
  \<open>report\<close> is an object literal used as a dictionary, so a read \<open>report[username]\<close>
  that finds no property of the report itself continues in \<open>Object.prototype\<close>. The
  state of the function is the list of the report's own properties, in the order they were
  created, and the names of the enumerable properties that the call has created on
  \<open>Object.prototype\<close>. When the call starts, \<open>Object.prototype\<close> has the properties
  that the language gives it and no others; none of them is enumerable.
\<close>

type_synonym FullReport = "(string \<times> ReportData) list"

record Heap =
  report :: FullReport
  prototypeProperties :: "string list"

definition objectPrototypeKeys :: "string list" where
  "objectPrototypeKeys =
     [''constructor'', ''__defineGetter__'', ''__defineSetter__'', ''hasOwnProperty'',
      ''__lookupGetter__'', ''__lookupSetter__'', ''isPrototypeOf'', ''propertyIsEnumerable'',
      ''toString'', ''valueOf'', ''__proto__'', ''toLocaleString'']"

datatype Value =
    ReportObject ReportData   \<comment> \<open>an entry of the report\<close>
  | BuiltinFunction           \<comment> \<open>a method inherited from \<open>Object.prototype\<close>\<close>
  | PrototypeObject           \<comment> \<open>\<open>Object.prototype\<close> itself, read through \<open>__proto__\<close>\<close>
  | NotANumber                \<comment> \<open>a counter created on \<open>Object.prototype\<close>\<close>
  | Undefined

definition getProperty :: "Heap \<Rightarrow> string \<Rightarrow> Value" where
  "getProperty h k =
     (case map_of (report h) k of
        Some r \<Rightarrow> ReportObject r
      | None \<Rightarrow>
          if k = ''__proto__'' then PrototypeObject
          else if k \<in> set objectPrototypeKeys then BuiltinFunction
          else if k \<in> set (prototypeProperties h) then NotANumber
          else Undefined)"

fun truthy :: "Value \<Rightarrow> bool" where
  "truthy (ReportObject r) = True"
| "truthy BuiltinFunction = True"
| "truthy PrototypeObject = True"
| "truthy NotANumber = False"
| "truthy Undefined = False"

definition emptyUserReport :: ReportData where
  "emptyUserReport =
     \<lparr>totalPrompts = 0, totalOriginalTokens = 0, totalOptimizedTokens = 0,
      totalSavings = 0, totalExecutions = 0, estimatedCostSavings = 0\<rparr>"

definition initializeUserReport :: "string \<Rightarrow> Heap \<Rightarrow> Heap" where
  "initializeUserReport u h =
     (if \<not> truthy (getProperty h u) then h\<lparr>report := report h @ [(u, emptyUserReport)]\<rparr>
      else h)"

fun updateEntry :: "string \<Rightarrow> (ReportData \<Rightarrow> ReportData) \<Rightarrow> FullReport \<Rightarrow> FullReport" where
  "updateEntry u f [] = []"
| "updateEntry u f ((k, r) # rest) =
     (if k = u then (k, f r) # rest else (k, r) # updateEntry u f rest)"

text \<open>
  The body of the first loop. The four \<open>+=\<close> change the entry of the report; for a user
  name that names a method of \<open>Object.prototype\<close> they write to that function object,
  and for \<open>__proto__\<close> they create four counters on \<open>Object.prototype\<close>.
\<close>

definition addAnalysis :: "AnalysisRecord \<Rightarrow> Heap \<Rightarrow> Heap" where
  "addAnalysis record h0 =
     (let h = initializeUserReport (username record) h0
      in case getProperty h (username record) of
           ReportObject userReport \<Rightarrow>
             h\<lparr>report := updateEntry (username record)
                  (\<lambda>r. r\<lparr>totalPrompts := totalPrompts r + 1,
                          totalOriginalTokens := totalOriginalTokens r + originalTokenCount record,
                          totalOptimizedTokens := totalOptimizedTokens r + optimizedTokenCount record,
                          totalSavings := totalSavings r + savings record\<rparr>)
                  (report h)\<rparr>
         | BuiltinFunction \<Rightarrow> h
         | PrototypeObject \<Rightarrow>
             h\<lparr>prototypeProperties := prototypeProperties h @
                  [''totalPrompts'', ''totalOriginalTokens'', ''totalOptimizedTokens'',
                   ''totalSavings'']\<rparr>
         | NotANumber \<Rightarrow> h
         | Undefined \<Rightarrow> h)"

text \<open>The body of the second loop.\<close>

definition addExecution :: "ExecutionRecord \<Rightarrow> Heap \<Rightarrow> Heap" where
  "addExecution record h0 =
     (let h = initializeUserReport (execution_username record) h0
      in case getProperty h (execution_username record) of
           ReportObject userReport \<Rightarrow>
             h\<lparr>report := updateEntry (execution_username record)
                  (\<lambda>r. r\<lparr>totalExecutions := totalExecutions r + 1\<rparr>) (report h)\<rparr>
         | BuiltinFunction \<Rightarrow> h
         | PrototypeObject \<Rightarrow>
             h\<lparr>prototypeProperties := prototypeProperties h @ [''totalExecutions'']\<rparr>
         | NotANumber \<Rightarrow> h
         | Undefined \<Rightarrow> h)"

definition estimate :: "int \<Rightarrow> rat" where
  "estimate tokens =
     Number_multiply (Number_divide (of_int tokens) 1000000) COST_PER_MILLION_TOKENS"

text \<open>
  The third loop, \<open>for (const username in report)\<close>, visits the report's own keys and then
  the enumerable keys of \<open>Object.prototype\<close> that the report does not shadow. What it
  reads under such a key is a number, and the module is strict code, where the assignment
  of a property to a number throws.
\<close>

datatype exception = TypeError

definition costSavings :: "Heap \<Rightarrow> exception + FullReport" where
  "costSavings h =
     (if list_ex (\<lambda>k. k \<notin> set (map fst (report h))) (prototypeProperties h)
        then Inl TypeError
      else Inr (map (\<lambda>(u, r). (u, r\<lparr>estimatedCostSavings := estimate (totalSavings r)\<rparr>))
                  (report h)))"

definition startTime :: "timeZone \<Rightarrow> int \<Rightarrow> Period \<Rightarrow> int" where
  "startTime tz now period =
     (case period of
        PDay \<Rightarrow> newDate tz (getFullYear tz now) (getMonth tz now) (getDate tz now)
      | PWeek \<Rightarrow> setHours tz (setDate tz now (getDate tz now - getDay tz now)) 0 0 0 0
      | PMonth \<Rightarrow> newDate tz (getFullYear tz now) (getMonth tz now) 1
      | PYear \<Rightarrow> newDate tz (getFullYear tz now) 0 1
      | PAll \<Rightarrow> 0)"

text \<open>The three loops, on the filtered lists.\<close>

definition aggregate :: "AnalysisRecord list \<Rightarrow> ExecutionRecord list \<Rightarrow> exception + FullReport" where
  "aggregate filteredAnalysisHistory filteredExecHistory =
     (let h0 = \<lparr>report = [], prototypeProperties = []\<rparr>;
          h1 = fold addAnalysis filteredAnalysisHistory h0;
          h2 = fold addExecution filteredExecHistory h1
      in costSavings h2)"

text \<open>
  \<open>calculateReportData\<close>, with the clock (\<open>new Date()\<close>) and the local time zone as
  arguments.
\<close>

definition calculateReportData ::
  "timeZone \<Rightarrow> int \<Rightarrow> AnalysisRecord list \<Rightarrow> ExecutionRecord list \<Rightarrow> Period
     \<Rightarrow> exception + FullReport" where
  "calculateReportData tz now analyses executions period =
     (let start = startTime tz now period;
          filteredAnalysisHistory = filter (\<lambda>record. start \<le> timestamp record) analyses;
          filteredExecHistory =
            filter (\<lambda>record. start \<le> execution_timestamp record) executions
      in aggregate filteredAnalysisHistory filteredExecHistory)"


section \<open>The export (exportReportToCsv)\<close>

text \<open>
  \<open>Object.keys\<close> and \<open>Object.entries\<close> list the properties of an object in property
  order: the keys that are array indices first, in ascending numeric order, then the other
  keys in the order they were created.
\<close>

definition isDigit :: "char \<Rightarrow> bool" where
  "isDigit c \<longleftrightarrow> 48 \<le> (of_char c :: int) \<and> (of_char c :: int) \<le> 57"

definition digitValue :: "char \<Rightarrow> int" where
  "digitValue c = of_char c - 48"

definition decimalValue :: "string \<Rightarrow> int" where
  "decimalValue s = foldl (\<lambda>n c. 10 * n + digitValue c) 0 s"

definition isArrayIndex :: "string \<Rightarrow> bool" where
  "isArrayIndex k \<longleftrightarrow>
     k \<noteq> [] \<and> list_all isDigit k \<and> (k = ''0'' \<or> hd k \<noteq> CHR ''0'')
       \<and> decimalValue k \<le> 4294967294"

definition Object_entries :: "FullReport \<Rightarrow> (string \<times> ReportData) list" where
  "Object_entries data =
     sort_key (\<lambda>(k, v). decimalValue k) (filter (\<lambda>(k, v). isArrayIndex k) data)
       @ filter (\<lambda>(k, v). \<not> isArrayIndex k) data"

definition Object_keys :: "FullReport \<Rightarrow> string list" where
  "Object_keys data = map fst (Object_entries data)"

text \<open>
  The string of an integer (for magnitudes below \<open>10^21\<close>, where the platform prints all
  digits).
\<close>

definition digit :: "int \<Rightarrow> char" where
  "digit d = char_of (48 + d)"

function decimal :: "int \<Rightarrow> string" where
  "decimal n = (if n < 10 then [digit n] else decimal (n div 10) @ [digit (n mod 10)])"
  by pat_completeness auto
termination
  by (relation "measure nat") auto

declare decimal.simps [simp del]

definition Number_toString :: "int \<Rightarrow> string" where
  "Number_toString n = (if n < 0 then ''-'' @ decimal (- n) else decimal n)"

text \<open>
  \<open>x.toFixed(f)\<close> for \<open>\<bar>x\<bar> < 10^21\<close>: the digits of the integer \<open>n\<close> for which
  \<open>n / 10^f\<close> is nearest to \<open>\<bar>x\<bar>\<close> (the larger one of two), padded with zeros to more
  than \<open>f\<close> digits, with a point before the last \<open>f\<close> digits and the sign in front.
\<close>

definition Number_toFixed :: "nat \<Rightarrow> rat \<Rightarrow> string" where
  "Number_toFixed f x =
     (let s = (if x < 0 then ''-'' else '''');
          n = \<lfloor>\<bar>x\<bar> * 10 ^ f + 1 / 2\<rfloor>;
          m = decimal n;
          m = (if length m \<le> f then replicate (f + 1 - length m) CHR ''0'' @ m else m);
          k = length m
      in if f = 0 then s @ m
         else s @ take (k - f) m @ ''.'' @ drop (k - f) m)"

text \<open>\<open>Array.prototype.join\<close>.\<close>

fun join :: "string \<Rightarrow> string list \<Rightarrow> string" where
  "join sep [] = []"
| "join sep [x] = x"
| "join sep (x # y # ys) = x @ sep @ join sep (y # ys)"

text \<open>\<open>user.replace(/"/g, '""')\<close>.\<close>

definition doubleQuotes :: "string \<Rightarrow> string" where
  "doubleQuotes user = concat (map (\<lambda>c. if c = CHR 0x22 then [CHR 0x22, CHR 0x22] else [c]) user)"

text \<open>Reading a quoted field back: two double quotes stand for one.\<close>

fun singleQuotes :: "string \<Rightarrow> string" where
  "singleQuotes (c # d # rest) =
     (if c = CHR 0x22 \<and> d = CHR 0x22 then c # singleQuotes rest
      else c # singleQuotes (d # rest))"
| "singleQuotes s = s"

definition headers :: "string list" where
  "headers = [''User'', ''Total Prompts'', ''Total Executions'', ''Total Original Tokens'',
              ''Total Optimized Tokens'', ''Total Savings'', ''Estimated Cost Savings ($)'']"

text \<open>One element of \<open>rows\<close>, with its numbers as \<open>join\<close> prints them.\<close>

definition row :: "string \<times> ReportData \<Rightarrow> string list" where
  "row entry =
     (case entry of (user, userData) \<Rightarrow>
        [[CHR 0x22] @ doubleQuotes user @ [CHR 0x22],
         Number_toString (totalPrompts userData),
         Number_toString (totalExecutions userData),
         Number_toString (totalOriginalTokens userData),
         Number_toString (totalOptimizedTokens userData),
         Number_toString (totalSavings userData),
         Number_toFixed 6 (estimatedCostSavings userData)])"

text \<open>What the call does in the page: an alert, or the download of a file.\<close>

datatype Effect =
    Alert string
  | Download string string   \<comment> \<open>file name and content\<close>

definition exportReportToCsv :: "FullReport \<Rightarrow> Effect" where
  "exportReportToCsv data =
     (if length (Object_keys data) = 0 then Alert ''No data to export.''
      else
        (let rows = map row (Object_entries data);
             csvContent = join [CHR 0x0A] (join '','' headers # map (join '','') rows)
         in Download ''prompt-optimizer-report.csv'' csvContent))"


section \<open>What the report should hold\<close>

text \<open>
  The totals of one user over the lists of records that passed the time filter, as the
  description of the report has them: counts of records and sums of their fields.
\<close>

definition userTotals :: "string \<Rightarrow> AnalysisRecord list \<Rightarrow> ExecutionRecord list \<Rightarrow> ReportData" where
  "userTotals u analyses executions =
     (let mine = filter (\<lambda>r. username r = u) analyses
      in \<lparr>totalPrompts = int (length mine),
          totalOriginalTokens = sum_list (map originalTokenCount mine),
          totalOptimizedTokens = sum_list (map optimizedTokenCount mine),
          totalSavings = sum_list (map savings mine),
          totalExecutions = int (length (filter (\<lambda>r. execution_username r = u) executions)),
          estimatedCostSavings = 0\<rparr>)"

text \<open>A user name that is not the name of a property of \<open>Object.prototype\<close>.\<close>

definition ordinaryName :: "string \<Rightarrow> bool" where
  "ordinaryName u \<longleftrightarrow> u \<notin> set objectPrototypeKeys"

text \<open>
  The state of the loops after the given records, for ordinary user names: one entry per
  user name seen, holding that user's totals.
\<close>

definition accumulated :: "Heap \<Rightarrow> AnalysisRecord list \<Rightarrow> ExecutionRecord list \<Rightarrow> bool" where
  "accumulated h analyses executions \<longleftrightarrow>
     prototypeProperties h = [] \<and>
     distinct (map fst (report h)) \<and>
     set (map fst (report h)) = username ` set analyses \<union> execution_username ` set executions \<and>
     (\<forall>(u, r) \<in> set (report h). r = userTotals u analyses executions)"

definition consistentSavings :: "ReportData \<Rightarrow> bool" where
  "consistentSavings r \<longleftrightarrow> totalSavings r = totalOriginalTokens r - totalOptimizedTokens r"

text \<open>
  The time zones in which calendar days are regular: every local midnight exists; the
  instants whose local day is day \<open>k\<close> or later are those from the midnight of day \<open>k\<close> on
  (local days do not run backwards); and a local time converted to UTC and back is on the
  same day (no clock change reaches across midnight). Zones with a fixed offset are
  regular, and so are zones that change their clocks at two in the morning.
\<close>

definition regularZone :: "timeZone \<Rightarrow> bool" where
  "regularZone tz \<longleftrightarrow>
     (\<forall>k. LocalTime tz (UTC tz (k * msPerDay)) = k * msPerDay) \<and>
     (\<forall>k u. k \<le> Day (LocalTime tz u) \<longleftrightarrow> UTC tz (k * msPerDay) \<le> u) \<and>
     (\<forall>m. Day (LocalTime tz (UTC tz m)) = Day m)"




section \<open>Comparison functions and sample data\<close>

text \<open>
  A comparison function is consistent when it orders its arguments as a total preorder;
  \<open>Array.prototype.sort\<close> promises a sorted result for such functions only.
\<close>

definition consistentCompare :: "('a \<Rightarrow> 'a \<Rightarrow> int) \<Rightarrow> bool" where
  "consistentCompare cmp \<longleftrightarrow>
     (\<forall>a b. 0 < cmp a b \<longrightarrow> cmp b a \<le> 0) \<and>
     (\<forall>a b c. cmp a b \<le> 0 \<and> cmp b c \<le> 0 \<longrightarrow> cmp a c \<le> 0)"

definition sortsBefore :: "('a \<Rightarrow> 'a \<Rightarrow> int) \<Rightarrow> 'a \<Rightarrow> 'a \<Rightarrow> bool" where
  "sortsBefore cmp a b \<longleftrightarrow> cmp a b < 0 \<and> 0 < cmp b a"

text \<open>
  One collation to run the examples with: strings are compared letter by letter after
  folding the ASCII capitals, as the base letters of a locale-aware comparison are.
\<close>

definition toLower :: "char \<Rightarrow> char" where
  "toLower c = (let n = of_char c :: nat in if 65 \<le> n \<and> n \<le> 90 then char_of (n + 32) else c)"

definition caseFoldCompare :: "string \<Rightarrow> string \<Rightarrow> int" where
  "caseFoldCompare a b =
     (let x = map toLower a; y = map toLower b
      in if x < y then - 1 else if y < x then 1 else 0)"

definition sampleDB :: DB where
  "sampleDB =
     \<lparr>users = [\<lparr>user_id = 1, name = ''a'', createdAt = 5\<rparr>],
      analysisHistory = [\<lparr>record_id = 1, username = ''a'', timestamp = 6,
                          originalTokenCount = 100, optimizedTokenCount = 40, savings = 60\<rparr>],
      executionHistory = [],
      userKey = 2, historyKey = 2, executionKey = 1\<rparr>"

text \<open>
  Two time zones to run the examples in: a zone with a fixed offset, and the Eastern time
  of North America in 2023, five hours behind UTC and four hours behind from March 12,
  07:00 UTC to November 5, 06:00 UTC.
\<close>

definition fixedOffset :: "int \<Rightarrow> timeZone" where
  "fixedOffset tza = (\<lambda>t isUTC. tza)"

definition easternTime2023 :: timeZone where
  "easternTime2023 =
     (\<lambda>t isUTC.
        if isUTC then (if 1678604400000 \<le> t \<and> t < 1699164000000 then - 14400000 else - 18000000)
        else (if 1678590000000 \<le> t \<and> t < 1699149600000 then - 14400000 else - 18000000))"
section \<open>Properties of the store\<close>

subsection \<open>Analysis records\<close>

lemma perform_keeps_history:
  "\<not> isClear c \<Longrightarrow> r \<in> set (analysisHistory s) \<Longrightarrow> r \<in> set (analysisHistory (perform c s))"
  by (cases c) (auto simp: addUser_def addAnalysisRecord_def addExecutionRecord_def Let_def)

lemma performAll_keeps_history:
  "\<not> list_ex isClear cs \<Longrightarrow> r \<in> set (analysisHistory s)
     \<Longrightarrow> r \<in> set (analysisHistory (performAll cs s))"
proof (induction cs arbitrary: s)
  case Nil
  then show ?case by simp
next
  case (Cons c cs)
  then show ?case by (simp add: perform_keeps_history)
qed

text \<open>
  Claim C1. A successful \<open>addAnalysisRecord(username, analysisResult)\<close> returns and
  stores a record whose \<open>savings\<close> is \<open>originalTokenCount - optimizedTokenCount\<close> (an
  integer difference, negative when the rewrite is longer), with the user name and the two
  counts as given. The record is appended to the history as it is, \<open>getAllHistory\<close>
  returns it, and no later call of the module other than a clearing of the stores changes
  or removes it: the savings are written once and not computed again.
\<close>

theorem addAnalysisRecord_savings:
  assumes "addAnalysisRecord b now u res s = (Inr r, s')"
  shows "savings r = result_originalTokenCount res - result_optimizedTokenCount res
       \<and> username r = u
       \<and> originalTokenCount r = result_originalTokenCount res
       \<and> optimizedTokenCount r = result_optimizedTokenCount res
       \<and> timestamp r = now
       \<and> analysisHistory s' = analysisHistory s @ [r]
       \<and> getAllHistory Works s' = Inr (analysisHistory s @ [r])
       \<and> (\<forall>cs. \<not> list_ex isClear cs \<longrightarrow> r \<in> set (analysisHistory (performAll cs s')))"
proof -
  from assms have ok: "b = Works"
    by (cases b) (simp_all add: addAnalysisRecord_def Let_def)
  from assms ok have r: "r = \<lparr>record_id = historyKey s, username = u, timestamp = now,
          originalTokenCount = result_originalTokenCount res,
          optimizedTokenCount = result_optimizedTokenCount res,
          savings = result_originalTokenCount res - result_optimizedTokenCount res\<rparr>"
    and s': "s' = s\<lparr>analysisHistory := analysisHistory s @ [r], historyKey := historyKey s + 1\<rparr>"
    by (auto simp: addAnalysisRecord_def Let_def)
  have mem: "r \<in> set (analysisHistory s')" by (subst s') simp
  have later: "\<forall>cs. \<not> list_ex isClear cs \<longrightarrow> r \<in> set (analysisHistory (performAll cs s'))"
    using mem by (simp add: performAll_keeps_history)
  have hist: "analysisHistory s' = analysisHistory s @ [r]" by (subst s') simp
  show ?thesis using later hist by (simp add: r getAllHistory_def)
qed

theorem addAnalysisRecord_savings_witness:
  "addAnalysisRecord Works 1000 ''u''
      \<lparr>result_originalTokenCount = 100, optimizedPrompt = ''p'',
       result_optimizedTokenCount = 40, explanation = ''e''\<rparr> initDB
     = (Inr \<lparr>record_id = 1, username = ''u'', timestamp = 1000, originalTokenCount = 100,
              optimizedTokenCount = 40, savings = 60\<rparr>,
        initDB\<lparr>analysisHistory :=
                 [\<lparr>record_id = 1, username = ''u'', timestamp = 1000, originalTokenCount = 100,
                   optimizedTokenCount = 40, savings = 60\<rparr>],
               historyKey := 2\<rparr>)
   \<and> \<lparr>record_id = 1, username = ''u'', timestamp = 1000, originalTokenCount = 100,
       optimizedTokenCount = 40, savings = 60\<rparr>
       \<in> set (analysisHistory (performAll [AddUser Works 2000 ''v'', GetAllHistory Works]
            (initDB\<lparr>analysisHistory :=
                 [\<lparr>record_id = 1, username = ''u'', timestamp = 1000, originalTokenCount = 100,
                   optimizedTokenCount = 40, savings = 60\<rparr>],
               historyKey := 2\<rparr>)))"
proof -
  have run: "addAnalysisRecord Works 1000 ''u''
      \<lparr>result_originalTokenCount = 100, optimizedPrompt = ''p'',
       result_optimizedTokenCount = 40, explanation = ''e''\<rparr> initDB
     = (Inr \<lparr>record_id = 1, username = ''u'', timestamp = 1000, originalTokenCount = 100,
              optimizedTokenCount = 40, savings = 60\<rparr>,
        initDB\<lparr>analysisHistory :=
                 [\<lparr>record_id = 1, username = ''u'', timestamp = 1000, originalTokenCount = 100,
                   optimizedTokenCount = 40, savings = 60\<rparr>],
               historyKey := 2\<rparr>)"
    by (simp add: addAnalysisRecord_def initDB_def Let_def)
  have clearfree: "\<not> list_ex isClear [AddUser Works 2000 ''v'', GetAllHistory Works]"
    by simp
  from addAnalysisRecord_savings [OF run] clearfree run show ?thesis
    by blast
qed

subsection \<open>User profiles\<close>

text \<open>
  Claim C5. \<open>addUser(name)\<close> is rejected with the error \<open>User "name" might already
  exist.\<close> when a profile with exactly that name is stored, and the store stays as it
  was. From a store that holds neither of two different names, adding the first and then
  the second succeeds, each call returning the profile with the next generated id and
  \<open>createdAt = now\<close>, and adding the first name again is rejected.
\<close>

theorem addUser_duplicate:
  "(n \<in> set (map name (users s)) \<and> b \<noteq> OpenFails
      \<longrightarrow> addUser b now n s = (Inl (ErrorObject (duplicateMessage n)), s))
   \<and> (n \<in> set (map name (users s))
      \<longrightarrow> isl (fst (addUser b now n s)) \<and> snd (addUser b now n s) = s)
   \<and> (n1 \<noteq> n2 \<and> n1 \<notin> set (map name (users s)) \<and> n2 \<notin> set (map name (users s)) \<longrightarrow>
         (let u1 = \<lparr>user_id = userKey s, name = n1, createdAt = t1\<rparr>;
              s1 = s\<lparr>users := users s @ [u1], userKey := userKey s + 1\<rparr>;
              u2 = \<lparr>user_id = userKey s + 1, name = n2, createdAt = t2\<rparr>;
              s2 = s1\<lparr>users := users s1 @ [u2], userKey := userKey s1 + 1\<rparr>
          in addUser Works t1 n1 s = (Inr u1, s1)
           \<and> addUser Works t2 n2 s1 = (Inr u2, s2)
           \<and> addUser Works t3 n1 s2 = (Inl (ErrorObject (duplicateMessage n1)), s2)))"
  by (auto simp: addUser_def Let_def)

theorem addUser_duplicate_witness:
  "''a'' \<in> set (map name (users sampleDB))
   \<and> addUser Works 9 ''a'' sampleDB
       = (Inl (ErrorObject ''User \"a\" might already exist.''), sampleDB)
   \<and> addUser Works 7 ''Bob'' sampleDB
       = (Inr \<lparr>user_id = 2, name = ''Bob'', createdAt = 7\<rparr>,
          sampleDB\<lparr>users := users sampleDB @ [\<lparr>user_id = 2, name = ''Bob'', createdAt = 7\<rparr>],
                   userKey := 3\<rparr>)
   \<and> addUser Works 8 ''bob''
         (sampleDB\<lparr>users := users sampleDB @ [\<lparr>user_id = 2, name = ''Bob'', createdAt = 7\<rparr>],
                   userKey := 3\<rparr>)
       = (Inr \<lparr>user_id = 3, name = ''bob'', createdAt = 8\<rparr>,
          sampleDB\<lparr>users := users sampleDB @ [\<lparr>user_id = 2, name = ''Bob'', createdAt = 7\<rparr>,
                                               \<lparr>user_id = 3, name = ''bob'', createdAt = 8\<rparr>],
                   userKey := 4\<rparr>)
   \<and> addUser Works 9 ''Bob''
         (sampleDB\<lparr>users := users sampleDB @ [\<lparr>user_id = 2, name = ''Bob'', createdAt = 7\<rparr>,
                                               \<lparr>user_id = 3, name = ''bob'', createdAt = 8\<rparr>],
                   userKey := 4\<rparr>)
       = (Inl (ErrorObject ''User \"Bob\" might already exist.''),
          sampleDB\<lparr>users := users sampleDB @ [\<lparr>user_id = 2, name = ''Bob'', createdAt = 7\<rparr>,
                                               \<lparr>user_id = 3, name = ''bob'', createdAt = 8\<rparr>],
                   userKey := 4\<rparr>)"
proof -
  have stored: "''a'' \<in> set (map name (users sampleDB))"
    and fresh: "''Bob'' \<noteq> ''bob''" "''Bob'' \<notin> set (map name (users sampleDB))"
      "''bob'' \<notin> set (map name (users sampleDB))"
    and key: "userKey sampleDB = 2"
    by (simp_all add: sampleDB_def)
  from addUser_duplicate [of "''a''" sampleDB Works 9 "''Bob''" "''bob''" 7 8 9] stored fresh
  show ?thesis by (simp add: key Let_def duplicateMessage_def)
qed

subsection \<open>Sorting the profiles\<close>

lemma mset_sortInsert: "mset (sortInsert cmp x ys) = add_mset x (mset ys)"
  by (induction ys) auto

lemma mset_arraySort: "mset (arraySort cmp xs) = mset xs"
  by (induction xs) (auto simp: mset_sortInsert)

lemma set_sortInsert: "set (sortInsert cmp x ys) = insert x (set ys)"
  by (induction ys) auto

lemma sorted_sortInsert:
  assumes "consistentCompare cmp" and "sorted_wrt (\<lambda>a b. cmp a b \<le> 0) ys"
  shows "sorted_wrt (\<lambda>a b. cmp a b \<le> 0) (sortInsert cmp x ys)"
  using assms(2)
proof (induction ys)
  case Nil
  then show ?case by simp
next
  case (Cons y ys)
  have tot: "\<And>a b. 0 < cmp a b \<Longrightarrow> cmp b a \<le> 0"
    and trans: "\<And>a b c. cmp a b \<le> 0 \<Longrightarrow> cmp b c \<le> 0 \<Longrightarrow> cmp a c \<le> 0"
    using assms(1) unfolding consistentCompare_def by blast+
  show ?case
  proof (cases "cmp x y \<le> 0")
    case True
    with Cons.prems show ?thesis by (auto intro: trans)
  next
    case False
    then have "cmp y x \<le> 0" using tot [of x y] by simp
    with False Cons show ?thesis by (auto simp: set_sortInsert)
  qed
qed

lemma sorted_arraySort:
  "consistentCompare cmp \<Longrightarrow> sorted_wrt (\<lambda>a b. cmp a b \<le> 0) (arraySort cmp xs)"
  by (induction xs) (auto intro: sorted_sortInsert)

lemma consistentCompare_on_name:
  "consistentCompare cmp \<Longrightarrow> consistentCompare (\<lambda>a b. cmp (name a) (name b))"
  unfolding consistentCompare_def by blast

lemma consistent_caseFoldCompare: "consistentCompare caseFoldCompare"
  unfolding consistentCompare_def caseFoldCompare_def Let_def
  by (auto split: if_splits)

text \<open>
  Claim C6. \<open>getAllUsers()\<close> returns every stored profile, sorted by name in ascending
  order of \<open>localeCompare\<close>; on an empty store it returns the empty list and not an
  error. When the collation puts \<open>alice\<close> before \<open>Bob\<close> and \<open>Bob\<close> before \<open>Zoe\<close>,
  the profiles added as Bob, alice, Zoe come back in the order alice, Bob, Zoe.
\<close>

theorem getAllUsers_sorted:
  assumes "consistentCompare localeCompare"
  shows "(\<exists>us. getAllUsers localeCompare Works s = Inr us
            \<and> mset us = mset (users s)
            \<and> sorted_wrt (\<lambda>a b. localeCompare (name a) (name b) \<le> 0) us)
       \<and> (users s = [] \<longrightarrow> getAllUsers localeCompare Works s = Inr [])
       \<and> (sortsBefore localeCompare ''alice'' ''Bob'' \<and> sortsBefore localeCompare ''Bob'' ''Zoe''
            \<longrightarrow> getAllUsers localeCompare Works
                  (performAll [AddUser Works t1 ''Bob'', AddUser Works t2 ''alice'',
                               AddUser Works t3 ''Zoe''] initDB)
                = Inr [\<lparr>user_id = 2, name = ''alice'', createdAt = t2\<rparr>,
                       \<lparr>user_id = 1, name = ''Bob'', createdAt = t1\<rparr>,
                       \<lparr>user_id = 3, name = ''Zoe'', createdAt = t3\<rparr>])"
proof -
  let ?cmp = "\<lambda>a b. localeCompare (name a) (name b)"
  have "sorted_wrt (\<lambda>a b. ?cmp a b \<le> 0) (arraySort ?cmp (users s))"
    using assms by (intro sorted_arraySort consistentCompare_on_name)
  then have general: "\<exists>us. getAllUsers localeCompare Works s = Inr us
            \<and> mset us = mset (users s)
            \<and> sorted_wrt (\<lambda>a b. localeCompare (name a) (name b) \<le> 0) us"
    by (simp add: getAllUsers_def mset_arraySort)
  have empty: "users s = [] \<longrightarrow> getAllUsers localeCompare Works s = Inr []"
    by (simp add: getAllUsers_def)
  have example: "getAllUsers localeCompare Works
                  (performAll [AddUser Works t1 ''Bob'', AddUser Works t2 ''alice'',
                               AddUser Works t3 ''Zoe''] initDB)
                = Inr [\<lparr>user_id = 2, name = ''alice'', createdAt = t2\<rparr>,
                       \<lparr>user_id = 1, name = ''Bob'', createdAt = t1\<rparr>,
                       \<lparr>user_id = 3, name = ''Zoe'', createdAt = t3\<rparr>]"
    if ab: "sortsBefore localeCompare ''alice'' ''Bob''"
      and bz: "sortsBefore localeCompare ''Bob'' ''Zoe''"
  proof -
    have 1: "localeCompare ''alice'' ''Bob'' \<le> 0" and 2: "\<not> localeCompare ''Bob'' ''alice'' \<le> 0"
      and 3: "localeCompare ''Bob'' ''Zoe'' \<le> 0"
      using ab bz by (simp_all add: sortsBefore_def)
    have 4: "localeCompare ''alice'' ''Zoe'' \<le> 0"
      using assms 1 3 unfolding consistentCompare_def by blast
    show ?thesis
      by (simp add: getAllUsers_def addUser_def initDB_def Let_def 1 2 3 4)
  qed
  from general empty example show ?thesis by blast
qed

theorem getAllUsers_sorted_witness:
  "consistentCompare caseFoldCompare
   \<and> getAllUsers caseFoldCompare Works
        (performAll [AddUser Works 10 ''Bob'', AddUser Works 20 ''alice'',
                     AddUser Works 30 ''Zoe''] initDB)
      = Inr [\<lparr>user_id = 2, name = ''alice'', createdAt = 20\<rparr>,
             \<lparr>user_id = 1, name = ''Bob'', createdAt = 10\<rparr>,
             \<lparr>user_id = 3, name = ''Zoe'', createdAt = 30\<rparr>]
   \<and> getAllUsers caseFoldCompare Works initDB = Inr []"
proof -
  have ab: "sortsBefore caseFoldCompare ''alice'' ''Bob''"
    unfolding sortsBefore_def caseFoldCompare_def Let_def toLower_def by code_simp
  have bz: "sortsBefore caseFoldCompare ''Bob'' ''Zoe''"
    unfolding sortsBefore_def caseFoldCompare_def Let_def toLower_def by code_simp
  have e: "users initDB = []" by (simp add: initDB_def)
  from getAllUsers_sorted [OF consistent_caseFoldCompare, of initDB 10 20 30] ab bz e
    consistent_caseFoldCompare
  show ?thesis by blast
qed

subsection \<open>Clearing the stores\<close>

text \<open>
  Claim C7. \<open>clearAllData()\<close> clears the three stores in one transaction: either the
  call succeeds, and then \<open>getAllUsers\<close>, \<open>getAllHistory\<close> and
  \<open>getAllExecutionHistory\<close> all return the empty list, or it is rejected, and then the
  three stores are what they were before the call.
\<close>

theorem clearAllData_atomic:
  "(b = Works \<longrightarrow> fst (clearAllData b s) = Inr ())
   \<and> ((fst (clearAllData b s) = Inr ()
        \<and> getAllUsers localeCompare Works (snd (clearAllData b s)) = Inr []
        \<and> getAllHistory Works (snd (clearAllData b s)) = Inr []
        \<and> getAllExecutionHistory Works (snd (clearAllData b s)) = Inr [])
      \<or> (isl (fst (clearAllData b s)) \<and> snd (clearAllData b s) = s))"
  by (cases b)
     (simp_all add: clearAllData_def getAllUsers_def getAllHistory_def
        getAllExecutionHistory_def Let_def)

theorem clearAllData_atomic_witness:
  "clearAllData Works sampleDB
     = (Inr (), sampleDB\<lparr>users := [], analysisHistory := [], executionHistory := []\<rparr>)
   \<and> getAllUsers caseFoldCompare Works (snd (clearAllData Works sampleDB)) = Inr []
   \<and> getAllHistory Works (snd (clearAllData Works sampleDB)) = Inr []
   \<and> getAllExecutionHistory Works (snd (clearAllData Works sampleDB)) = Inr []
   \<and> clearAllData RequestFails sampleDB = (Inl TransactionError, sampleDB)"
proof -
  have ok: "clearAllData Works sampleDB
     = (Inr (), sampleDB\<lparr>users := [], analysisHistory := [], executionHistory := []\<rparr>)"
    by (simp add: clearAllData_def Let_def)
  have bad: "clearAllData RequestFails sampleDB = (Inl TransactionError, sampleDB)"
    by (simp add: clearAllData_def Let_def)
  from clearAllData_atomic [of Works sampleDB caseFoldCompare] ok bad
  show ?thesis by auto
qed
section \<open>Properties of the numbers\<close>

text \<open>
  \<open>binary64\<close> rounds to a neighbour: the result differs from the argument by at most
  half a unit in the last place, which in the normal range is a relative error of at most
  \<open>2\<^sup>-\<^sup>5\<^sup>3\<close>.
\<close>

lemma pow2_power_int: "pow2 k = 2 powi k"
  by (simp add: pow2_def power_int_def inverse_eq_divide power_one_over)

lemma pow2_pos: "0 < pow2 k"
  by (simp add: pow2_power_int)

lemma pow2_add: "pow2 (j + k) = pow2 j * pow2 k"
  by (simp add: pow2_power_int power_int_add)

lemma pow2_nat: "0 \<le> k \<Longrightarrow> pow2 k = 2 ^ nat k"
  by (simp add: pow2_def)

lemma pow2_mono: "j \<le> k \<Longrightarrow> pow2 j \<le> pow2 k"
  by (simp add: pow2_power_int power_int_increasing)

lemma bitLength_bounds:
  "0 < n \<Longrightarrow> 1 \<le> bitLength n \<and> 2 ^ nat (bitLength n - 1) \<le> n \<and> n < 2 ^ nat (bitLength n)"
proof (induction n rule: bitLength.induct)
  case (1 n)
  show ?case
  proof (cases "n div 2 = 0")
    case True
    with "1.prems" have "n = 1" by presburger
    then show ?thesis by (simp add: bitLength.simps [of 1] bitLength.simps [of 0])
  next
    case False
    with "1.prems" have pos: "0 < n div 2" by presburger
    define k where "k = bitLength (n div 2)"
    from "1.IH" [OF _ pos] "1.prems"
    have k: "1 \<le> k" "2 ^ nat (k - 1) \<le> n div 2" "n div 2 < 2 ^ nat k"
      by (simp_all add: k_def)
    have bl: "bitLength n = 1 + k"
      using "1.prems" by (simp add: bitLength.simps [of n] k_def)
    have "nat k = Suc (nat (k - 1))" using k(1) by linarith
    then have e1: "(2::int) ^ nat k = 2 * 2 ^ nat (k - 1)" by simp
    have "nat (1 + k) = Suc (nat k)" using k(1) by linarith
    then have e2: "(2::int) ^ nat (1 + k) = 2 * 2 ^ nat k" by simp
    have d: "2 * (n div 2) \<le> n" "n \<le> 2 * (n div 2) + 1" by presburger+
    have a: "1 \<le> bitLength n" using bl k(1) by simp
    have b: "2 ^ nat (bitLength n - 1) \<le> n"
      using d(1) k(2) e1 by (simp add: bl)
    have c: "n < 2 ^ nat (bitLength n)"
      unfolding bl e2 using d(2) k(3) by linarith
    from a b c show ?thesis by blast
  qed
qed

lemma ilog2_bounds:
  assumes "q \<noteq> 0"
  shows "pow2 (ilog2 q) \<le> \<bar>q\<bar>" and "\<bar>q\<bar> < pow2 (ilog2 q + 1)"
proof -
  have both: "pow2 (ilog2 q) \<le> \<bar>q\<bar> \<and> \<bar>q\<bar> < pow2 (ilog2 q + 1)"
  proof (cases "1 \<le> \<bar>q\<bar>")
    case True
    define n where "n = \<lfloor>\<bar>q\<bar>\<rfloor>"
    have n: "0 < n" using True by (simp add: n_def)
    have fl: "of_int n \<le> \<bar>q\<bar>" "\<bar>q\<bar> < of_int (n + 1)"
      unfolding n_def by linarith+
    from bitLength_bounds [OF n]
    have k: "1 \<le> bitLength n" "2 ^ nat (bitLength n - 1) \<le> n" "n < 2 ^ nat (bitLength n)"
      by simp_all
    have il: "ilog2 q = bitLength n - 1"
      using True by (simp add: ilog2_def n_def)
    have lo: "pow2 (bitLength n - 1) \<le> \<bar>q\<bar>"
    proof -
      have "pow2 (bitLength n - 1) = of_int (2 ^ nat (bitLength n - 1))"
        using k(1) by (simp add: pow2_nat)
      also have "\<dots> \<le> of_int n" using k(2) by (simp only: of_int_le_iff)
      finally show ?thesis using fl(1) by linarith
    qed
    have hi: "\<bar>q\<bar> < pow2 (bitLength n - 1 + 1)"
    proof -
      have "n + 1 \<le> 2 ^ nat (bitLength n)" using k(3) by simp
      then have "(of_int (n + 1) :: rat) \<le> of_int (2 ^ nat (bitLength n))"
        by (simp only: of_int_le_iff)
      also have "\<dots> = pow2 (bitLength n - 1 + 1)"
        using k(1) by (simp add: pow2_nat)
      finally show ?thesis using fl(2) by linarith
    qed
    from lo hi il show ?thesis by simp
  next
    case False
    define r where "r = 1 / \<bar>q\<bar>"
    define c where "c = \<lceil>r\<rceil>"
    have q: "0 < \<bar>q\<bar>" "\<bar>q\<bar> < 1" using assms False by simp_all
    then have r: "1 < r" by (simp add: r_def)
    have c: "r \<le> of_int c" "of_int (c - 1) < r"
      unfolding c_def by linarith+
    have c1: "0 < c - 1" using r c(1) by linarith
    define j where "j = bitLength (c - 1)"
    from bitLength_bounds [OF c1]
    have j: "1 \<le> j" "2 ^ nat (j - 1) \<le> c - 1" "c - 1 < 2 ^ nat j"
      by (simp_all add: j_def)
    have il: "ilog2 q = - j"
      using False by (simp add: ilog2_def j_def c_def r_def)
    have inv: "\<bar>q\<bar> = 1 / r" using q by (simp add: r_def)
    have "c \<le> 2 ^ nat j" using j(3) by simp
    then have "(of_int c :: rat) \<le> of_int (2 ^ nat j)" by (simp only: of_int_le_iff)
    moreover have "(of_int (2 ^ nat j) :: rat) = 2 ^ nat j" by simp
    ultimately have up: "r \<le> 2 ^ nat j" using c(1) by linarith
    have "(of_int (2 ^ nat (j - 1)) :: rat) \<le> of_int (c - 1)"
      using j(2) by (simp only: of_int_le_iff)
    moreover have "(of_int (2 ^ nat (j - 1)) :: rat) = 2 ^ nat (j - 1)" by simp
    ultimately have dn: "2 ^ nat (j - 1) < r" using c(2) by linarith
    have lo: "pow2 (- j) \<le> \<bar>q\<bar>"
    proof -
      have "pow2 (- j) = 1 / 2 ^ nat j" using j(1) by (simp add: pow2_def)
      also have "\<dots> \<le> 1 / r" using up r by (intro divide_left_mono) simp_all
      finally show ?thesis by (simp add: inv)
    qed
    have hi: "\<bar>q\<bar> < pow2 (- j + 1)"
    proof -
      have "0 < r * 2 ^ nat (j - 1)" using r by simp
      with dn have "1 / r < 1 / 2 ^ nat (j - 1)"
        by (intro divide_strict_left_mono) simp_all
      also have "\<dots> = pow2 (- j + 1)"
      proof (cases "j = 1")
        case True
        then show ?thesis by (simp add: pow2_def)
      next
        case False
        with j(1) have "- j + 1 < 0" "nat (j - 1) = nat (- (- j + 1))" by simp_all
        then show ?thesis by (simp add: pow2_def)
      qed
      finally show ?thesis by (simp add: inv)
    qed
    from lo hi il show ?thesis by simp
  qed
  from both show "pow2 (ilog2 q) \<le> \<bar>q\<bar>" and "\<bar>q\<bar> < pow2 (ilog2 q + 1)" by simp_all
qed

lemma roundHalfEven_error: "\<bar>of_int (roundHalfEven q) - q\<bar> \<le> 1 / 2"
proof -
  have "of_int \<lfloor>q\<rfloor> \<le> q" "q < of_int \<lfloor>q\<rfloor> + 1" by linarith+
  then show ?thesis
    by (auto simp: roundHalfEven_def Let_def)
qed

lemma binary64_error:
  "\<bar>binary64 q - q\<bar> \<le> pow2 (max (ilog2 q) (- 1022) - 53)"
proof (cases "q = 0")
  case True
  then show ?thesis using pow2_pos [of "max (ilog2 0) (- 1022) - 53"] by (simp add: binary64_def)
next
  case False
  define e where "e = max (ilog2 q) (- 1022)"
  define ulp where "ulp = pow2 (e - 52)"
  have ulp: "0 < ulp" by (simp add: ulp_def pow2_pos)
  have half: "pow2 (e - 53) = ulp / 2"
    using pow2_add [of "e - 53" 1] by (simp add: ulp_def pow2_def)
  have "binary64 q - q = (of_int (roundHalfEven (q / ulp)) - q / ulp) * ulp"
    using False ulp by (simp add: binary64_def Let_def e_def ulp_def algebra_simps)
  then have "\<bar>binary64 q - q\<bar> = \<bar>of_int (roundHalfEven (q / ulp)) - q / ulp\<bar> * ulp"
    using ulp by (simp add: abs_mult)
  also have "\<dots> \<le> (1 / 2) * ulp"
    using roundHalfEven_error [of "q / ulp"] ulp by (intro mult_right_mono) simp_all
  finally have "\<bar>binary64 q - q\<bar> \<le> ulp / 2" by simp
  then show ?thesis unfolding half [symmetric] e_def .
qed

lemma binary64_relative_error:
  assumes "pow2 (- 1022) \<le> \<bar>q\<bar>"
  shows "\<bar>binary64 q - q\<bar> \<le> \<bar>q\<bar> / 2 ^ 53"
proof -
  have nz: "q \<noteq> 0" using assms pow2_pos [of "- 1022"] by auto
  have "- 1022 \<le> ilog2 q"
  proof (rule ccontr)
    assume "\<not> - 1022 \<le> ilog2 q"
    then have "ilog2 q + 1 \<le> - 1022" by simp
    then have "pow2 (ilog2 q + 1) \<le> pow2 (- 1022)" by (rule pow2_mono)
    with ilog2_bounds(2) [OF nz] assms show False by linarith
  qed
  then have "max (ilog2 q) (- 1022) = ilog2 q" by simp
  with binary64_error [of q] have "\<bar>binary64 q - q\<bar> \<le> pow2 (ilog2 q - 53)" by simp
  also have "\<dots> = pow2 (ilog2 q) / 2 ^ 53"
    using pow2_add [of "ilog2 q" "- 53"] by (simp add: pow2_def)
  also have "\<dots> \<le> \<bar>q\<bar> / 2 ^ 53"
    using ilog2_bounds(1) [OF nz] by (intro divide_right_mono) simp_all
  finally show ?thesis .
qed

lemma cost_value: "COST_PER_MILLION_TOKENS = 3152519739159347 / 9007199254740992"
  unfolding COST_PER_MILLION_TOKENS_def by code_simp

lemma tiny: "pow2 (- 1022) \<le> 1 / 10 ^ 7"
  by (simp add: pow2_def)

text \<open>
  The estimate of the report agrees with the exact product \<open>tokens \<times> 0.35 / 10\<^sup>6\<close> up to
  the rounding of the literal, the division and the multiplication.
\<close>

lemma estimate_error:
  "\<bar>estimate n - of_int n * 35 / 100000000\<bar> \<le> \<bar>of_int n * 35 / 100000000\<bar> / 2 ^ 51"
proof (cases "n = 0")
  case True
  then show ?thesis
    by (simp add: estimate_def Number_multiply_def Number_divide_def binary64_def)
next
  case False
  define x :: rat where "x = of_int n / 1000000"
  define a where "a = binary64 x"
  define c :: rat where "c = 3152519739159347 / 9007199254740992"
  have est: "estimate n = binary64 (a * c)"
    by (simp add: estimate_def Number_multiply_def Number_divide_def cost_value a_def x_def c_def)
  from False have "1 \<le> \<bar>n\<bar>" by simp
  then have "(1::rat) \<le> \<bar>of_int n\<bar>" by (metis of_int_1 of_int_abs of_int_le_iff)
  then have x1: "1 / 1000000 \<le> \<bar>x\<bar>" by (simp add: x_def)
  with tiny have "pow2 (- 1022) \<le> \<bar>x\<bar>" by simp
  from binary64_relative_error [OF this]
  have f1: "\<bar>a - x\<bar> \<le> \<bar>x\<bar> / 2 ^ 53" by (simp add: a_def)
  have cpos: "0 \<le> c" by (simp add: c_def)
  have ac: "\<bar>a * c\<bar> = \<bar>a\<bar> * c"
    by (simp only: abs_mult abs_of_nonneg [OF cpos])
  have "\<bar>x\<bar> - \<bar>x\<bar> / 2 ^ 53 \<le> \<bar>a\<bar>" using f1 by linarith
  with x1 have "1 / 2000000 \<le> \<bar>a\<bar>" by simp
  then have "1 / 10 ^ 7 \<le> \<bar>a\<bar> * c" by (simp add: c_def)
  with tiny ac have "pow2 (- 1022) \<le> \<bar>a * c\<bar>" by simp
  from binary64_relative_error [OF this]
  have f3: "\<bar>estimate n - a * c\<bar> \<le> \<bar>a\<bar> * c / 2 ^ 53" by (simp add: est ac)
  have up: "\<bar>a\<bar> \<le> \<bar>x\<bar> + \<bar>x\<bar> / 2 ^ 53" using f1 by linarith
  have "\<bar>estimate n - x * (35 / 100)\<bar>
          \<le> \<bar>estimate n - a * c\<bar> + \<bar>a - x\<bar> * c + \<bar>x\<bar> * \<bar>c - 35 / 100\<bar>"
  proof -
    have "estimate n - x * (35 / 100)
            = (estimate n - a * c) + (a - x) * c + x * (c - 35 / 100)"
      by (simp add: algebra_simps)
    then have "\<bar>estimate n - x * (35 / 100)\<bar>
                 \<le> \<bar>estimate n - a * c\<bar> + \<bar>(a - x) * c\<bar> + \<bar>x * (c - 35 / 100)\<bar>"
      by linarith
    moreover have "\<bar>(a - x) * c\<bar> = \<bar>a - x\<bar> * c"
      by (simp only: abs_mult abs_of_nonneg [OF cpos])
    moreover have "\<bar>x * (c - 35 / 100)\<bar> = \<bar>x\<bar> * \<bar>c - 35 / 100\<bar>" by (rule abs_mult)
    ultimately show ?thesis by (simp only:)
  qed
  also have "\<dots> \<le> \<bar>a\<bar> * c / 2 ^ 53 + (\<bar>x\<bar> / 2 ^ 53) * c + \<bar>x\<bar> * \<bar>c - 35 / 100\<bar>"
    using f3 f1 by (intro add_mono mult_right_mono) (simp_all add: c_def)
  also have "\<dots> \<le> (\<bar>x\<bar> + \<bar>x\<bar> / 2 ^ 53) * c / 2 ^ 53 + (\<bar>x\<bar> / 2 ^ 53) * c
                   + \<bar>x\<bar> * \<bar>c - 35 / 100\<bar>"
    using up by (intro add_mono divide_right_mono mult_right_mono) (simp_all add: c_def)
  also have "\<dots> \<le> \<bar>x\<bar> * (35 / 100) / 2 ^ 51"
    by (simp add: c_def)
  finally have "\<bar>estimate n - x * (35 / 100)\<bar> \<le> \<bar>x\<bar> * (35 / 100) / 2 ^ 51" .
  then show ?thesis by (simp add: x_def abs_mult mult.commute)
qed
section \<open>Properties of the report\<close>

subsection \<open>Entries of the report\<close>

lemma updateEntry_all:
  assumes "\<forall>(k, r) \<in> set rep. P r" and "\<And>r. P r \<Longrightarrow> P (f r)"
  shows "\<forall>(k, r) \<in> set (updateEntry u f rep). P r"
  using assms(1) by (induction rep) (auto simp: assms(2) split: if_splits)

lemma initializeUserReport_all:
  assumes "\<forall>(k, r) \<in> set (report h). P r" and "P emptyUserReport"
  shows "\<forall>(k, r) \<in> set (report (initializeUserReport u h)). P r"
  using assms by (auto simp: initializeUserReport_def)

lemma addAnalysis_all:
  assumes "\<forall>(k, r) \<in> set (report h). P r" and "P emptyUserReport"
    and "\<And>r. P r \<Longrightarrow> P (r\<lparr>totalPrompts := totalPrompts r + 1,
                          totalOriginalTokens := totalOriginalTokens r + originalTokenCount record,
                          totalOptimizedTokens := totalOptimizedTokens r + optimizedTokenCount record,
                          totalSavings := totalSavings r + savings record\<rparr>)"
  shows "\<forall>(k, r) \<in> set (report (addAnalysis record h)). P r"
proof -
  let ?h = "initializeUserReport (username record) h"
  have init: "\<forall>(k, r) \<in> set (report ?h). P r"
    using assms(1,2) by (rule initializeUserReport_all)
  show ?thesis
    unfolding addAnalysis_def Let_def
    using init updateEntry_all [of "report ?h" P, OF init assms(3)]
    by (cases "getProperty ?h (username record)") simp_all
qed

lemma addExecution_all:
  assumes "\<forall>(k, r) \<in> set (report h). P r" and "P emptyUserReport"
    and "\<And>r. P r \<Longrightarrow> P (r\<lparr>totalExecutions := totalExecutions r + 1\<rparr>)"
  shows "\<forall>(k, r) \<in> set (report (addExecution record h)). P r"
proof -
  let ?h = "initializeUserReport (execution_username record) h"
  have init: "\<forall>(k, r) \<in> set (report ?h). P r"
    using assms(1,2) by (rule initializeUserReport_all)
  show ?thesis
    unfolding addExecution_def Let_def
    using init updateEntry_all [of "report ?h" P, OF init assms(3)]
    by (cases "getProperty ?h (execution_username record)") simp_all
qed

lemma fold_addAnalysis_consistent:
  assumes "\<forall>record \<in> set records.
             savings record = originalTokenCount record - optimizedTokenCount record"
    and "\<forall>(k, r) \<in> set (report h). consistentSavings r"
  shows "\<forall>(k, r) \<in> set (report (fold addAnalysis records h)). consistentSavings r"
  using assms
proof (induction records arbitrary: h)
  case Nil
  then show ?case by simp
next
  case (Cons x records)
  have "\<forall>(k, r) \<in> set (report (addAnalysis x h)). consistentSavings r"
    using Cons.prems
    by (intro addAnalysis_all) (simp_all add: consistentSavings_def emptyUserReport_def)
  with Cons show ?case by simp
qed

lemma fold_addExecution_consistent:
  assumes "\<forall>(k, r) \<in> set (report h). consistentSavings r"
  shows "\<forall>(k, r) \<in> set (report (fold addExecution records h)). consistentSavings r"
  using assms
proof (induction records arbitrary: h)
  case Nil
  then show ?case by simp
next
  case (Cons x records)
  have "\<forall>(k, r) \<in> set (report (addExecution x h)). consistentSavings r"
    using Cons.prems
    by (intro addExecution_all) (simp_all add: consistentSavings_def emptyUserReport_def)
  with Cons show ?case by simp
qed

lemma costSavings_entries:
  assumes "costSavings h = Inr rep"
  shows "rep = map (\<lambda>(u, r). (u, r\<lparr>estimatedCostSavings := estimate (totalSavings r)\<rparr>)) (report h)"
  using assms by (simp add: costSavings_def split: if_splits)

lemma aggregate_consistent:
  assumes "\<forall>record \<in> set records.
             savings record = originalTokenCount record - optimizedTokenCount record"
    and "aggregate records executions = Inr rep"
  shows "\<forall>(u, r) \<in> set rep. consistentSavings r"
proof -
  let ?h1 = "fold addAnalysis records \<lparr>report = [], prototypeProperties = []\<rparr>"
  let ?h2 = "fold addExecution executions ?h1"
  have "\<forall>(k, r) \<in> set (report ?h1). consistentSavings r"
    using assms(1) by (intro fold_addAnalysis_consistent) simp_all
  then have inv: "\<forall>(k, r) \<in> set (report ?h2). consistentSavings r"
    by (rule fold_addExecution_consistent)
  from assms(2) have "costSavings ?h2 = Inr rep" by (simp add: aggregate_def Let_def)
  from costSavings_entries [OF this] inv show ?thesis
    by (auto simp: consistentSavings_def)
qed

lemma aggregate_estimate:
  assumes "aggregate records executions = Inr rep"
  shows "\<forall>(u, r) \<in> set rep. estimatedCostSavings r = estimate (totalSavings r)"
proof -
  from assms obtain h where "costSavings h = Inr rep" by (simp add: aggregate_def Let_def)
  from costSavings_entries [OF this] show ?thesis by auto
qed

subsection \<open>Ordinary user names\<close>

text \<open>
  For user names that are not property names of \<open>Object.prototype\<close> the three loops
  compute the report of the description: one entry per user name that occurs in a filtered
  list, with the counts and sums of that user's records.
\<close>

lemma keys_updateEntry: "map fst (updateEntry u f rep) = map fst rep"
  by (induction rep) auto

lemma updateEntry_as_map:
  "distinct (map fst rep) \<Longrightarrow>
     updateEntry u f rep = map (\<lambda>(k, r). (k, if k = u then f r else r)) rep"
proof (induction rep)
  case Nil
  then show ?case by simp
next
  case (Cons e rep)
  obtain k r where e: "e = (k, r)" by (cases e)
  show ?case
  proof (cases "k = u")
    case True
    with Cons.prems e have "\<forall>(k', r') \<in> set rep. k' \<noteq> u" by force
    then have "map (\<lambda>(k, r). (k, if k = u then f r else r)) rep = rep"
      by (intro map_idI) auto
    with True e show ?thesis by simp
  next
    case False
    with Cons e show ?thesis by simp
  qed
qed

lemma getProperty_own:
  "distinct (map fst (report h)) \<Longrightarrow> (u, r) \<in> set (report h)
     \<Longrightarrow> getProperty h u = ReportObject r"
  by (simp add: getProperty_def)

lemma getProperty_absent:
  "u \<notin> fst ` set (report h) \<Longrightarrow> ordinaryName u \<Longrightarrow> prototypeProperties h = []
     \<Longrightarrow> getProperty h u = Undefined"
  by (auto simp: getProperty_def ordinaryName_def objectPrototypeKeys_def map_of_eq_None_iff
      split: option.splits)

lemma userTotals_nobody:
  "u \<notin> username ` set analyses \<Longrightarrow> u \<notin> execution_username ` set executions
     \<Longrightarrow> userTotals u analyses executions = emptyUserReport"
proof -
  assume a: "u \<notin> username ` set analyses" and e: "u \<notin> execution_username ` set executions"
  from a have "filter (\<lambda>r. username r = u) analyses = []"
    by (auto simp: filter_empty_conv)
  moreover from e have "filter (\<lambda>r. execution_username r = u) executions = []"
    by (auto simp: filter_empty_conv)
  ultimately show ?thesis by (simp add: userTotals_def emptyUserReport_def)
qed

lemma initializeUserReport_accumulated:
  assumes "accumulated h analyses executions" and "ordinaryName u"
  shows "prototypeProperties (initializeUserReport u h) = []
       \<and> distinct (map fst (report (initializeUserReport u h)))
       \<and> set (map fst (report (initializeUserReport u h))) = insert u (set (map fst (report h)))
       \<and> (\<forall>(k, r) \<in> set (report (initializeUserReport u h)).
             r = userTotals k analyses executions)
       \<and> (\<exists>r. (u, r) \<in> set (report (initializeUserReport u h)))"
proof -
  have inv: "prototypeProperties h = []" "distinct (map fst (report h))"
    "set (map fst (report h)) = username ` set analyses \<union> execution_username ` set executions"
    "\<forall>(k, r) \<in> set (report h). r = userTotals k analyses executions"
    using assms(1) by (simp_all add: accumulated_def)
  show ?thesis
  proof (cases "u \<in> fst ` set (report h)")
    case True
    then obtain r where r: "(u, r) \<in> set (report h)" by auto
    then have "getProperty h u = ReportObject r" using inv(2) by (rule getProperty_own [rotated])
    then have "initializeUserReport u h = h" by (simp add: initializeUserReport_def)
    with inv r True show ?thesis by auto
  next
    case False
    then have "getProperty h u = Undefined"
      using assms(2) inv(1) by (rule getProperty_absent)
    then have eq: "initializeUserReport u h = h\<lparr>report := report h @ [(u, emptyUserReport)]\<rparr>"
      by (simp add: initializeUserReport_def)
    have "userTotals u analyses executions = emptyUserReport"
      using False inv(3) by (intro userTotals_nobody) auto
    with inv False show ?thesis unfolding eq by auto
  qed
qed

lemma userTotals_analysis_same:
  "username x = u \<Longrightarrow>
     userTotals u (analyses @ [x]) executions
       = (userTotals u analyses executions)
           \<lparr>totalPrompts := totalPrompts (userTotals u analyses executions) + 1,
            totalOriginalTokens :=
              totalOriginalTokens (userTotals u analyses executions) + originalTokenCount x,
            totalOptimizedTokens :=
              totalOptimizedTokens (userTotals u analyses executions) + optimizedTokenCount x,
            totalSavings := totalSavings (userTotals u analyses executions) + savings x\<rparr>"
  by (simp add: userTotals_def Let_def)

lemma userTotals_analysis_other:
  "username x \<noteq> u \<Longrightarrow> userTotals u (analyses @ [x]) executions = userTotals u analyses executions"
  by (simp add: userTotals_def Let_def)

lemma userTotals_execution_same:
  "execution_username x = u \<Longrightarrow>
     userTotals u analyses (executions @ [x])
       = (userTotals u analyses executions)
           \<lparr>totalExecutions := totalExecutions (userTotals u analyses executions) + 1\<rparr>"
  by (simp add: userTotals_def Let_def)

lemma userTotals_execution_other:
  "execution_username x \<noteq> u
     \<Longrightarrow> userTotals u analyses (executions @ [x]) = userTotals u analyses executions"
  by (simp add: userTotals_def Let_def)

lemma addAnalysis_accumulated:
  assumes "accumulated h analyses executions" and "ordinaryName (username x)"
  shows "accumulated (addAnalysis x h) (analyses @ [x]) executions"
proof -
  let ?u = "username x"
  let ?h = "initializeUserReport ?u h"
  let ?f = "\<lambda>r. r\<lparr>totalPrompts := totalPrompts r + 1,
                    totalOriginalTokens := totalOriginalTokens r + originalTokenCount x,
                    totalOptimizedTokens := totalOptimizedTokens r + optimizedTokenCount x,
                    totalSavings := totalSavings r + savings x\<rparr>"
  have keys0: "set (map fst (report h))
                 = username ` set analyses \<union> execution_username ` set executions"
    using assms(1) by (simp add: accumulated_def)
  from initializeUserReport_accumulated [OF assms]
  have p: "prototypeProperties ?h = []" and d: "distinct (map fst (report ?h))"
    and k: "set (map fst (report ?h)) = insert ?u (set (map fst (report h)))"
    and t: "\<forall>(k, r) \<in> set (report ?h). r = userTotals k analyses executions"
    and own: "\<exists>r. (?u, r) \<in> set (report ?h)"
    by blast+
  from own obtain r where r: "(?u, r) \<in> set (report ?h)" ..
  have "getProperty ?h ?u = ReportObject r" using d r by (rule getProperty_own)
  then have step: "addAnalysis x h = ?h\<lparr>report := updateEntry ?u ?f (report ?h)\<rparr>"
    by (simp add: addAnalysis_def Let_def)
  have entries: "\<forall>(k, r') \<in> set (updateEntry ?u ?f (report ?h)).
                   r' = userTotals k (analyses @ [x]) executions"
    unfolding updateEntry_as_map [OF d]
    using t by (auto simp: userTotals_analysis_same userTotals_analysis_other)
  show ?thesis
    unfolding accumulated_def step
    using p d k keys0 entries by (simp add: keys_updateEntry)
qed

lemma addExecution_accumulated:
  assumes "accumulated h analyses executions" and "ordinaryName (execution_username x)"
  shows "accumulated (addExecution x h) analyses (executions @ [x])"
proof -
  let ?u = "execution_username x"
  let ?h = "initializeUserReport ?u h"
  let ?f = "\<lambda>r. r\<lparr>totalExecutions := totalExecutions r + 1\<rparr>"
  have keys0: "set (map fst (report h))
                 = username ` set analyses \<union> execution_username ` set executions"
    using assms(1) by (simp add: accumulated_def)
  from initializeUserReport_accumulated [OF assms]
  have p: "prototypeProperties ?h = []" and d: "distinct (map fst (report ?h))"
    and k: "set (map fst (report ?h)) = insert ?u (set (map fst (report h)))"
    and t: "\<forall>(k, r) \<in> set (report ?h). r = userTotals k analyses executions"
    and own: "\<exists>r. (?u, r) \<in> set (report ?h)"
    by blast+
  from own obtain r where r: "(?u, r) \<in> set (report ?h)" ..
  have "getProperty ?h ?u = ReportObject r" using d r by (rule getProperty_own)
  then have step: "addExecution x h = ?h\<lparr>report := updateEntry ?u ?f (report ?h)\<rparr>"
    by (simp add: addExecution_def Let_def)
  have entries: "\<forall>(k, r') \<in> set (updateEntry ?u ?f (report ?h)).
                   r' = userTotals k analyses (executions @ [x])"
    unfolding updateEntry_as_map [OF d]
    using t by (auto simp: userTotals_execution_same userTotals_execution_other)
  show ?thesis
    unfolding accumulated_def step
    using p d k keys0 entries by (simp add: keys_updateEntry)
qed

lemma fold_addAnalysis_accumulated:
  assumes "accumulated h seen executions"
    and "\<forall>x \<in> set analyses. ordinaryName (username x)"
  shows "accumulated (fold addAnalysis analyses h) (seen @ analyses) executions"
  using assms
proof (induction analyses arbitrary: h seen)
  case Nil
  then show ?case by simp
next
  case (Cons x analyses)
  from Cons.prems have "accumulated (addAnalysis x h) (seen @ [x]) executions"
    by (intro addAnalysis_accumulated) simp_all
  from Cons.IH [OF this] Cons.prems(2) show ?case by simp
qed

lemma fold_addExecution_accumulated:
  assumes "accumulated h analyses seen"
    and "\<forall>x \<in> set executions. ordinaryName (execution_username x)"
  shows "accumulated (fold addExecution executions h) analyses (seen @ executions)"
  using assms
proof (induction executions arbitrary: h seen)
  case Nil
  then show ?case by simp
next
  case (Cons x executions)
  from Cons.prems have "accumulated (addExecution x h) analyses (seen @ [x])"
    by (intro addExecution_accumulated) simp_all
  from Cons.IH [OF this] Cons.prems(2) show ?case by simp
qed

lemma keys_costs: "map fst (map (\<lambda>(u, r). (u, f r)) rep) = map fst rep"
  by (induction rep) auto

lemma aggregate_ordinary:
  assumes "\<forall>x \<in> set analyses. ordinaryName (username x)"
    and "\<forall>x \<in> set executions. ordinaryName (execution_username x)"
  shows "\<exists>rep. aggregate analyses executions = Inr rep
           \<and> distinct (map fst rep)
           \<and> set (map fst rep) = username ` set analyses \<union> execution_username ` set executions
           \<and> (\<forall>(u, r) \<in> set rep.
                 r = (userTotals u analyses executions)
                       \<lparr>estimatedCostSavings :=
                          estimate (totalSavings (userTotals u analyses executions))\<rparr>)"
proof -
  let ?h0 = "\<lparr>report = [], prototypeProperties = []\<rparr>"
  let ?h1 = "fold addAnalysis analyses ?h0"
  let ?h2 = "fold addExecution executions ?h1"
  let ?g = "\<lambda>(u, r). (u, r\<lparr>estimatedCostSavings := estimate (totalSavings r)\<rparr>)"
  have "accumulated ?h0 [] []" by (simp add: accumulated_def)
  from fold_addAnalysis_accumulated [OF this assms(1)]
  have "accumulated ?h1 analyses []" by simp
  from fold_addExecution_accumulated [OF this assms(2)]
  have acc: "accumulated ?h2 analyses executions" by simp
  then have p: "prototypeProperties ?h2 = []" and d: "distinct (map fst (report ?h2))"
    and k: "set (map fst (report ?h2))
              = username ` set analyses \<union> execution_username ` set executions"
    and t: "\<forall>(u, r) \<in> set (report ?h2). r = userTotals u analyses executions"
    by (simp_all add: accumulated_def)
  define rep where "rep = map ?g (report ?h2)"
  have res: "aggregate analyses executions = Inr rep"
    by (simp add: aggregate_def Let_def costSavings_def p rep_def)
  have keys: "map fst rep = map fst (report ?h2)"
    unfolding rep_def by (rule keys_costs)
  have d': "distinct (map fst rep)"
    unfolding keys by (rule d)
  have k': "set (map fst rep) = username ` set analyses \<union> execution_username ` set executions"
    unfolding keys by (rule k)
  have "\<forall>(u, r) \<in> set rep.
          r = (userTotals u analyses executions)
                \<lparr>estimatedCostSavings := estimate (totalSavings (userTotals u analyses executions))\<rparr>"
    unfolding rep_def using t by auto
  with res d' k' show ?thesis by blast
qed

lemma calculateReportData_ordinary:
  assumes "\<forall>x \<in> set analyses. ordinaryName (username x)"
    and "\<forall>x \<in> set executions. ordinaryName (execution_username x)"
  shows "\<exists>rep. calculateReportData tz now analyses executions period = Inr rep
           \<and> distinct (map fst rep)
           \<and> set (map fst rep)
               = username ` {x \<in> set analyses. startTime tz now period \<le> timestamp x}
                 \<union> execution_username `
                     {x \<in> set executions. startTime tz now period \<le> execution_timestamp x}
           \<and> (\<forall>(u, r) \<in> set rep.
                 r = (userTotals u
                        (filter (\<lambda>x. startTime tz now period \<le> timestamp x) analyses)
                        (filter (\<lambda>x. startTime tz now period \<le> execution_timestamp x)
                           executions))
                       \<lparr>estimatedCostSavings :=
                          estimate (totalSavings (userTotals u
                            (filter (\<lambda>x. startTime tz now period \<le> timestamp x) analyses)
                            (filter (\<lambda>x. startTime tz now period \<le> execution_timestamp x)
                               executions)))\<rparr>)"
proof -
  let ?fa = "filter (\<lambda>x. startTime tz now period \<le> timestamp x) analyses"
  let ?fe = "filter (\<lambda>x. startTime tz now period \<le> execution_timestamp x) executions"
  have "\<forall>x \<in> set ?fa. ordinaryName (username x)"
    and "\<forall>x \<in> set ?fe. ordinaryName (execution_username x)"
    using assms by simp_all
  from aggregate_ordinary [OF this] show ?thesis
    by (simp add: calculateReportData_def Let_def)
qed

lemma single_record_report:
  assumes "ordinaryName (username x)"
  shows "calculateReportData tz now [x] [] period = Inr []
           \<longleftrightarrow> \<not> startTime tz now period \<le> timestamp x"
proof (cases "startTime tz now period \<le> timestamp x")
  case True
  have keys: "username ` {y \<in> set [x]. startTime tz now period \<le> timestamp y} = {username x}"
    using True by auto
  from calculateReportData_ordinary [of "[x]" "[]" tz now period] assms
  obtain rep where "calculateReportData tz now [x] [] period = Inr rep"
    and "set (map fst rep)
           = username ` {y \<in> set [x]. startTime tz now period \<le> timestamp y} \<union> {}"
    by auto
  then have "calculateReportData tz now [x] [] period = Inr rep" "set (map fst rep) = {username x}"
    unfolding keys by simp_all
  then have "calculateReportData tz now [x] [] period \<noteq> Inr []" by auto
  with True show ?thesis by simp
next
  case False
  have "aggregate [] [] = Inr []"
    by (simp add: aggregate_def costSavings_def Let_def)
  with False show ?thesis by (simp add: calculateReportData_def Let_def)
qed

subsection \<open>Evaluating the report\<close>

lemmas report_eval =
  calculateReportData_def startTime_def aggregate_def addAnalysis_def addExecution_def
  initializeUserReport_def getProperty_def objectPrototypeKeys_def costSavings_def
  emptyUserReport_def Let_def

lemma estimate_80: "estimate 80 = binary64 (28 / 1000000)"
  by code_simp

lemma binary64_samples:
  "binary64 (1 / 10) = 3602879701896397 / 36028797018963968"
  "binary64 (35 / 100) = 3152519739159347 / 9007199254740992"
  "binary64 (28 / 1000000) = 8264141345021879 / 295147905179352825856"
  "binary64 9007199254740993 = 9007199254740992"
  "binary64 (- 3) = - 3"
  by code_simp+

text \<open>
  Claim C2 says that the report has exactly one entry for every user name that occurs in
  a qualifying record, with \<open>totalPrompts\<close> the number of that user's qualifying analysis
  records. The code misses this for a user called \<open>constructor\<close>: \<open>report[username]\<close>
  finds the method inherited from \<open>Object.prototype\<close>, no entry is created, the
  counters are written to that function, and the report comes back empty although one
  analysis record of the user qualifies.
\<close>

theorem calculateReportData_inherited_name:
  "calculateReportData tz now
     [\<lparr>record_id = 1, username = ''constructor'', timestamp = 1000,
       originalTokenCount = 100, optimizedTokenCount = 40, savings = 60\<rparr>] [] PAll
   = Inr []"
  by (simp add: report_eval)

text \<open>
  Claim C4. In every report that \<open>calculateReportData\<close> returns, each entry has
  \<open>estimatedCostSavings = (totalSavings / 1000000) * 0.35\<close>, computed in double
  arithmetic; it differs from the exact product by a relative error of at most
  \<open>2\<^sup>-\<^sup>5\<^sup>1\<close>. Two analysis records of user \<open>a\<close> with token counts 100 and 40 (savings
  60) and 120 and 100 (savings 20), over the all-time window, give \<open>totalPrompts = 2\<close>,
  \<open>totalOriginalTokens = 220\<close>, \<open>totalOptimizedTokens = 140\<close>, \<open>totalSavings = 80\<close>
  and \<open>estimatedCostSavings = 0.000028\<close>, the double that this literal denotes.
\<close>

theorem estimatedCostSavings_formula:
  "(calculateReportData tz now analyses executions period = Inr rep \<longrightarrow>
      (\<forall>(u, r) \<in> set rep.
         estimatedCostSavings r
           = Number_multiply (Number_divide (of_int (totalSavings r)) 1000000)
               COST_PER_MILLION_TOKENS
         \<and> \<bar>estimatedCostSavings r - of_int (totalSavings r) * 35 / 100000000\<bar>
             \<le> \<bar>of_int (totalSavings r) * 35 / 100000000\<bar> / 2 ^ 51))
   \<and> COST_PER_MILLION_TOKENS = binary64 (35 / 100)
   \<and> calculateReportData tz now
        [\<lparr>record_id = 1, username = ''a'', timestamp = 1000,
          originalTokenCount = 100, optimizedTokenCount = 40, savings = 60\<rparr>,
         \<lparr>record_id = 2, username = ''a'', timestamp = 2000,
          originalTokenCount = 120, optimizedTokenCount = 100, savings = 20\<rparr>] [] PAll
       = Inr [(''a'', \<lparr>totalPrompts = 2, totalOriginalTokens = 220, totalOptimizedTokens = 140,
                      totalSavings = 80, totalExecutions = 0,
                      estimatedCostSavings = binary64 (28 / 1000000)\<rparr>)]"
proof -
  have general: "\<forall>(u, r) \<in> set rep.
         estimatedCostSavings r
           = Number_multiply (Number_divide (of_int (totalSavings r)) 1000000)
               COST_PER_MILLION_TOKENS
         \<and> \<bar>estimatedCostSavings r - of_int (totalSavings r) * 35 / 100000000\<bar>
             \<le> \<bar>of_int (totalSavings r) * 35 / 100000000\<bar> / 2 ^ 51"
    if res: "calculateReportData tz now analyses executions period = Inr rep"
  proof -
    from res have "\<forall>(u, r) \<in> set rep. estimatedCostSavings r = estimate (totalSavings r)"
      using aggregate_estimate [of _ _ rep] by (simp add: calculateReportData_def Let_def)
    then show ?thesis
      using estimate_error by (auto simp: estimate_def [symmetric])
  qed
  have example: "calculateReportData tz now
        [\<lparr>record_id = 1, username = ''a'', timestamp = 1000,
          originalTokenCount = 100, optimizedTokenCount = 40, savings = 60\<rparr>,
         \<lparr>record_id = 2, username = ''a'', timestamp = 2000,
          originalTokenCount = 120, optimizedTokenCount = 100, savings = 20\<rparr>] [] PAll
       = Inr [(''a'', \<lparr>totalPrompts = 2, totalOriginalTokens = 220, totalOptimizedTokens = 140,
                      totalSavings = 80, totalExecutions = 0,
                      estimatedCostSavings = binary64 (28 / 1000000)\<rparr>)]"
    by (simp add: report_eval estimate_80)
  from general example show ?thesis by (simp add: COST_PER_MILLION_TOKENS_def)
qed

theorem estimatedCostSavings_formula_witness:
  "calculateReportData (fixedOffset 0) 5000
        [\<lparr>record_id = 1, username = ''a'', timestamp = 1000,
          originalTokenCount = 100, optimizedTokenCount = 40, savings = 60\<rparr>,
         \<lparr>record_id = 2, username = ''a'', timestamp = 2000,
          originalTokenCount = 120, optimizedTokenCount = 100, savings = 20\<rparr>] [] PAll
       = Inr [(''a'', \<lparr>totalPrompts = 2, totalOriginalTokens = 220, totalOptimizedTokens = 140,
                      totalSavings = 80, totalExecutions = 0,
                      estimatedCostSavings = binary64 (28 / 1000000)\<rparr>)]
   \<and> binary64 (28 / 1000000)
       = Number_multiply (Number_divide (of_int 80) 1000000) COST_PER_MILLION_TOKENS"
  using estimatedCostSavings_formula [of "fixedOffset 0" 5000
        "[\<lparr>record_id = 1, username = ''a'', timestamp = 1000,
          originalTokenCount = 100, optimizedTokenCount = 40, savings = 60\<rparr>,
         \<lparr>record_id = 2, username = ''a'', timestamp = 2000,
          originalTokenCount = 120, optimizedTokenCount = 100, savings = 20\<rparr>]" "[]" PAll
        "[(''a'', \<lparr>totalPrompts = 2, totalOriginalTokens = 220, totalOptimizedTokens = 140,
                      totalSavings = 80, totalExecutions = 0,
                      estimatedCostSavings = binary64 (28 / 1000000)\<rparr>)]"]
  by simp

text \<open>
  Claim C10. When every analysis record given to \<open>calculateReportData\<close> has
  \<open>savings = originalTokenCount - optimizedTokenCount\<close>, every entry of the report it
  returns has \<open>totalSavings = totalOriginalTokens - totalOptimizedTokens\<close>, whatever the
  window. The stored field is what is summed: a record with counts 100 and 40 and a stored
  \<open>savings\<close> of 7 gives \<open>totalSavings = 7\<close>.
\<close>

theorem totalSavings_difference:
  "((\<forall>x \<in> set analyses. savings x = originalTokenCount x - optimizedTokenCount x)
      \<and> calculateReportData tz now analyses executions period = Inr rep \<longrightarrow>
      (\<forall>(u, r) \<in> set rep. totalSavings r = totalOriginalTokens r - totalOptimizedTokens r))
   \<and> calculateReportData tz now
        [\<lparr>record_id = 1, username = ''a'', timestamp = 1000,
          originalTokenCount = 100, optimizedTokenCount = 40, savings = 7\<rparr>] [] PAll
       = Inr [(''a'', \<lparr>totalPrompts = 1, totalOriginalTokens = 100, totalOptimizedTokens = 40,
                      totalSavings = 7, totalExecutions = 0,
                      estimatedCostSavings = estimate 7\<rparr>)]"
proof -
  have general: "\<forall>(u, r) \<in> set rep. totalSavings r = totalOriginalTokens r - totalOptimizedTokens r"
    if rel: "\<forall>x \<in> set analyses. savings x = originalTokenCount x - optimizedTokenCount x"
      and res: "calculateReportData tz now analyses executions period = Inr rep"
  proof -
    let ?as = "filter (\<lambda>x. startTime tz now period \<le> timestamp x) analyses"
    let ?es = "filter (\<lambda>x. startTime tz now period \<le> execution_timestamp x) executions"
    from res have "aggregate ?as ?es = Inr rep"
      by (simp add: calculateReportData_def Let_def)
    moreover from rel have "\<forall>x \<in> set ?as. savings x = originalTokenCount x - optimizedTokenCount x"
      by simp
    ultimately have "\<forall>(u, r) \<in> set rep. consistentSavings r"
      by (intro aggregate_consistent [of ?as ?es rep])
    then show ?thesis by (simp add: consistentSavings_def)
  qed
  have example: "calculateReportData tz now
        [\<lparr>record_id = 1, username = ''a'', timestamp = 1000,
          originalTokenCount = 100, optimizedTokenCount = 40, savings = 7\<rparr>] [] PAll
       = Inr [(''a'', \<lparr>totalPrompts = 1, totalOriginalTokens = 100, totalOptimizedTokens = 40,
                      totalSavings = 7, totalExecutions = 0,
                      estimatedCostSavings = estimate 7\<rparr>)]"
    by (simp add: report_eval)
  from general example show ?thesis by blast
qed

theorem totalSavings_difference_witness:
  "calculateReportData (fixedOffset 0) 5000
        [\<lparr>record_id = 1, username = ''a'', timestamp = 1000,
          originalTokenCount = 100, optimizedTokenCount = 40, savings = 60\<rparr>,
         \<lparr>record_id = 2, username = ''a'', timestamp = 2000,
          originalTokenCount = 120, optimizedTokenCount = 100, savings = 20\<rparr>] [] PAll
       = Inr [(''a'', \<lparr>totalPrompts = 2, totalOriginalTokens = 220, totalOptimizedTokens = 140,
                      totalSavings = 80, totalExecutions = 0,
                      estimatedCostSavings = binary64 (28 / 1000000)\<rparr>)]
   \<and> (80::int) = 220 - 140"
proof -
  have run: "calculateReportData (fixedOffset 0) 5000
        [\<lparr>record_id = 1, username = ''a'', timestamp = 1000,
          originalTokenCount = 100, optimizedTokenCount = 40, savings = 60\<rparr>,
         \<lparr>record_id = 2, username = ''a'', timestamp = 2000,
          originalTokenCount = 120, optimizedTokenCount = 100, savings = 20\<rparr>] [] PAll
       = Inr [(''a'', \<lparr>totalPrompts = 2, totalOriginalTokens = 220, totalOptimizedTokens = 140,
                      totalSavings = 80, totalExecutions = 0,
                      estimatedCostSavings = binary64 (28 / 1000000)\<rparr>)]"
    by (simp add: report_eval estimate_80)
  from totalSavings_difference [of
        "[\<lparr>record_id = 1, username = ''a'', timestamp = 1000,
          originalTokenCount = 100, optimizedTokenCount = 40, savings = 60\<rparr>,
         \<lparr>record_id = 2, username = ''a'', timestamp = 2000,
          originalTokenCount = 120, optimizedTokenCount = 100, savings = 20\<rparr>]" "fixedOffset 0" 5000 "[]" PAll
        "[(''a'', \<lparr>totalPrompts = 2, totalOriginalTokens = 220, totalOptimizedTokens = 140,
                      totalSavings = 80, totalExecutions = 0,
                      estimatedCostSavings = binary64 (28 / 1000000)\<rparr>)]"] run
  show ?thesis by simp
qed
section \<open>Properties of the time windows\<close>

subsection \<open>Years\<close>

lemma div_bounds:
  fixes x n :: int
  assumes "0 < n"
  shows "n * (x div n) \<le> x" and "x < n * (x div n) + n"
proof -
  have "x = n * (x div n) + x mod n" by simp
  moreover have "0 \<le> x mod n" "x mod n < n" using assms by simp_all
  ultimately show "n * (x div n) \<le> x" and "x < n * (x div n) + n" by linarith+
qed

lemma div_step:
  fixes x n :: int
  assumes "0 < n"
  shows "(x + 1) div n = x div n + (if (x + 1) mod n = 0 then 1 else 0)"
proof (cases "(x + 1) mod n = 0")
  case True
  then have "x + 1 = n * ((x + 1) div n)" by (simp add: mod_eq_0_iff_dvd)
  then have "x = n * ((x + 1) div n - 1) + (n - 1)" by (simp add: algebra_simps)
  then have "x div n = (x + 1) div n - 1"
    using assms by (intro int_div_pos_eq [where r = "n - 1"]) simp_all
  with True show ?thesis by simp
next
  case False
  have "0 \<le> (x + 1) mod n" using assms by simp
  with False have pos: "1 \<le> (x + 1) mod n" by linarith
  have "x + 1 = n * ((x + 1) div n) + (x + 1) mod n" by simp
  then have "x = n * ((x + 1) div n) + ((x + 1) mod n - 1)" by linarith
  then have "x div n = (x + 1) div n"
  proof (rule int_div_pos_eq [where r = "(x + 1) mod n - 1"])
    have "(x + 1) mod n < n" using assms by simp
    then show "(x + 1) mod n - 1 < n" by linarith
  qed (use pos in simp_all)
  with False show ?thesis by simp
qed

lemma mod_shift: "(k::int) dvd c \<Longrightarrow> (y - c) mod k = 0 \<longleftrightarrow> y mod k = 0"
  by (simp add: mod_eq_0_iff_dvd dvd_diff_left_iff)

lemma year_mods:
  fixes y :: int
  shows "(y - 1968) mod 4 = 0 \<longleftrightarrow> y mod 4 = 0"
    and "(y - 1900) mod 100 = 0 \<longleftrightarrow> y mod 100 = 0"
    and "(y - 1600) mod 400 = 0 \<longleftrightarrow> y mod 400 = 0"
  by (rule mod_shift, simp)+

lemma century_mods:
  fixes y :: int
  shows "y mod 100 = 0 \<Longrightarrow> y mod 4 = 0"
    and "y mod 400 = 0 \<Longrightarrow> y mod 100 = 0"
proof -
  have "(4::int) dvd 100" "(100::int) dvd 400" by simp_all
  then show "y mod 100 = 0 \<Longrightarrow> y mod 4 = 0" "y mod 400 = 0 \<Longrightarrow> y mod 100 = 0"
    by (auto simp: mod_eq_0_iff_dvd intro: dvd_trans)
qed

lemma DayFromYear_Suc: "DayFromYear (y + 1) = DayFromYear y + DaysInYear y"
proof -
  have a: "(y + 1 - 1969) div 4 = (y - 1969) div 4 + (if y mod 4 = 0 then 1 else 0)"
    using div_step [of 4 "y - 1969"] year_mods(1) [of y] by (simp add: algebra_simps)
  have b: "(y + 1 - 1901) div 100 = (y - 1901) div 100 + (if y mod 100 = 0 then 1 else 0)"
    using div_step [of 100 "y - 1901"] year_mods(2) [of y] by (simp add: algebra_simps)
  have c: "(y + 1 - 1601) div 400 = (y - 1601) div 400 + (if y mod 400 = 0 then 1 else 0)"
    using div_step [of 400 "y - 1601"] year_mods(3) [of y] by (simp add: algebra_simps)
  show ?thesis
    unfolding DayFromYear_def DaysInYear_def a b c
    using century_mods [of y] by auto
qed

lemma DaysInYear_bounds: "365 \<le> DaysInYear y" "DaysInYear y \<le> 366"
  unfolding DaysInYear_def by auto

lemma DayFromYear_upper: "400 * DayFromYear y \<le> 146097 * (y - 1970) + 589"
proof -
  have lin: "400 * (365 * (y - 1970) + A - B + C) \<le> 146097 * (y - 1970) + 589"
    if "4 * A \<le> y - 1969" "y - 1901 < 100 * B + 100" "400 * C \<le> y - 1601" for A B C :: int
    using that by (simp add: algebra_simps)
  show ?thesis
    unfolding DayFromYear_def
    using div_bounds [of 4 "y - 1969"] div_bounds [of 100 "y - 1901"]
      div_bounds [of 400 "y - 1601"] by (intro lin) simp_all
qed

lemma DayFromYear_lower: "146097 * (y - 1970) - 506 \<le> 400 * DayFromYear y"
proof -
  have lin: "146097 * (y - 1970) - 506 \<le> 400 * (365 * (y - 1970) + A - B + C)"
    if "y - 1969 < 4 * A + 4" "100 * B \<le> y - 1901" "y - 1601 < 400 * C + 400" for A B C :: int
    using that by (simp add: algebra_simps)
  show ?thesis
    unfolding DayFromYear_def
    using div_bounds [of 4 "y - 1969"] div_bounds [of 100 "y - 1901"]
      div_bounds [of 400 "y - 1601"] by (intro lin) simp_all
qed

lemma DayFromYear_strict_mono: "y < y' \<Longrightarrow> DayFromYear y < DayFromYear y'"
proof (induction y' rule: int_gr_induct)
  case base
  then show ?case using DayFromYear_Suc [of y] DaysInYear_bounds(1) [of y] by linarith
next
  case (step i)
  then show ?case using DayFromYear_Suc [of i] DaysInYear_bounds(1) [of i] by linarith
qed

lemma YearFromTime_bracket:
  "DayFromYear (YearFromTime t) \<le> Day t \<and> Day t < DayFromYear (YearFromTime t + 1)"
proof -
  define d where "d = Day t"
  define e where "e = (400 * d) div 146097"
  have e: "146097 * e \<le> 400 * d" "400 * d < 146097 * e + 146097"
    unfolding e_def using div_bounds [of 146097 "400 * d"] by simp_all
  have lo: "DayFromYear (1970 + e - 1) \<le> d"
  proof -
    have "400 * DayFromYear (1970 + e - 1) \<le> 146097 * (e - 1) + 589"
      using DayFromYear_upper [of "1970 + e - 1"] by simp
    with e show ?thesis by (simp add: algebra_simps)
  qed
  have hi: "d < DayFromYear (1970 + e + 1 + 1)"
  proof -
    have "146097 * (e + 2) - 506 \<le> 400 * DayFromYear (1970 + e + 1 + 1)"
      using DayFromYear_lower [of "1970 + e + 1 + 1"] by simp
    with e show ?thesis by (simp add: algebra_simps)
  qed
  have "YearFromTime t =
     (if DayFromYear (1970 + e + 1) \<le> d then 1970 + e + 1
      else if DayFromYear (1970 + e) \<le> d then 1970 + e else 1970 + e - 1)"
    by (simp add: YearFromTime_def Let_def d_def e_def)
  then show ?thesis
    using lo hi unfolding d_def [symmetric] by (auto simp: algebra_simps)
qed

lemma YearFromTime_unique:
  assumes "DayFromYear y \<le> Day t" and "Day t < DayFromYear (y + 1)"
  shows "YearFromTime t = y"
proof (rule ccontr)
  assume ne: "YearFromTime t \<noteq> y"
  let ?Y = "YearFromTime t"
  have br: "DayFromYear ?Y \<le> Day t" "Day t < DayFromYear (?Y + 1)"
    using YearFromTime_bracket [of t] by simp_all
  from ne consider "?Y < y" | "y < ?Y" by linarith
  then show False
  proof cases
    case 1
    then have "?Y + 1 \<le> y" by simp
    then have "DayFromYear (?Y + 1) \<le> DayFromYear y"
      using DayFromYear_strict_mono [of "?Y + 1" y] by (cases "?Y + 1 = y") auto
    with br assms show False by linarith
  next
    case 2
    then have "y + 1 \<le> ?Y" by simp
    then have "DayFromYear (y + 1) \<le> DayFromYear ?Y"
      using DayFromYear_strict_mono [of "y + 1" ?Y] by (cases "y + 1 = ?Y") auto
    with br assms show False by linarith
  qed
qed

subsection \<open>Months and days\<close>

lemma DayWithinYear_bounds:
  "0 \<le> DayWithinYear t" "DayWithinYear t < 365 + InLeapYear t"
proof -
  have br: "DayFromYear (YearFromTime t) \<le> Day t" "Day t < DayFromYear (YearFromTime t + 1)"
    using YearFromTime_bracket [of t] by simp_all
  show "0 \<le> DayWithinYear t" using br by (simp add: DayWithinYear_def)
  have "DaysInYear (YearFromTime t) = 365 + InLeapYear t"
    by (simp add: InLeapYear_def leapDays_def DaysInYear_def)
  then show "DayWithinYear t < 365 + InLeapYear t"
    using br DayFromYear_Suc [of "YearFromTime t"] by (simp add: DayWithinYear_def)
qed

lemma leapDays_cases: "leapDays y = 0 \<or> leapDays y = 1"
  by (simp add: leapDays_def)

lemma MonthFromTime_range: "0 \<le> MonthFromTime t" "MonthFromTime t \<le> 11"
  by (simp_all add: MonthFromTime_def Let_def)

lemma firstDayOfMonth_le:
  "firstDayOfMonth (MonthFromTime t) (InLeapYear t) \<le> DayWithinYear t"
  using DayWithinYear_bounds(1) [of t] leapDays_cases [of "YearFromTime t"]
  by (auto simp: MonthFromTime_def firstDayOfMonth_def InLeapYear_def Let_def)

lemma firstDayOfMonth_nonneg: "0 \<le> l \<Longrightarrow> 0 \<le> firstDayOfMonth m l"
  by (simp add: firstDayOfMonth_def)


lemma MakeDay_current:
  "MakeDay (YearFromTime t) (MonthFromTime t) dt = Day t - DateFromTime t + dt"
proof -
  have m: "MonthFromTime t div 12 = 0" "MonthFromTime t mod 12 = MonthFromTime t"
    using MonthFromTime_range [of t] by simp_all
  show ?thesis
    by (simp add: MakeDay_def Let_def m DateFromTime_def DayWithinYear_def InLeapYear_def)
qed

lemma MakeDay_january: "MakeDay y 0 1 = DayFromYear y"
  by (simp add: MakeDay_def firstDayOfMonth_def)

lemma Day_midnight: "Day (k * msPerDay) = k" "TimeWithinDay (k * msPerDay) = 0"
  by (simp_all add: Day_def TimeWithinDay_def msPerDay_def)

lemma Day_bounds: "Day t * msPerDay \<le> t" "t < Day t * msPerDay + msPerDay"
  using div_bounds [of msPerDay t] by (simp_all add: Day_def msPerDay_def mult.commute)

lemma Day_MakeDate: "0 \<le> tm \<Longrightarrow> tm < msPerDay \<Longrightarrow> Day (MakeDate k tm) = k"
  unfolding Day_def MakeDate_def
  by (rule int_div_pos_eq [where r = tm]) (simp_all add: msPerDay_def)

lemma TimeWithinDay_range: "0 \<le> TimeWithinDay t" "TimeWithinDay t < msPerDay"
  by (simp_all add: TimeWithinDay_def msPerDay_def)

lemma le_Day_iff: "a * msPerDay \<le> t \<longleftrightarrow> a \<le> Day t"
proof
  assume "a * msPerDay \<le> t"
  show "a \<le> Day t"
  proof (rule ccontr)
    assume "\<not> a \<le> Day t"
    then have "Day t + 1 \<le> a" by simp
    then have "(Day t + 1) * msPerDay \<le> a * msPerDay"
      by (intro mult_right_mono) (simp_all add: msPerDay_def)
    with Day_bounds(2) [of t] \<open>a * msPerDay \<le> t\<close> show False
      by (simp add: algebra_simps)
  qed
next
  assume "a \<le> Day t"
  then have "a * msPerDay \<le> Day t * msPerDay"
    by (intro mult_right_mono) (simp_all add: msPerDay_def)
  with Day_bounds(1) [of t] show "a * msPerDay \<le> t" by linarith
qed

lemma year_of_day:
  assumes "Day T = DayFromYear y + k" and "0 \<le> k" and "k < 365 + leapDays y"
  shows "YearFromTime T = y" and "DayWithinYear T = k" and "InLeapYear T = leapDays y"
proof -
  have len: "DaysInYear y = 365 + leapDays y"
    by (simp add: leapDays_def DaysInYear_def)
  show y: "YearFromTime T = y"
    using assms DayFromYear_Suc [of y] len by (intro YearFromTime_unique) simp_all
  show "DayWithinYear T = k" using assms(1) y by (simp add: DayWithinYear_def)
  show "InLeapYear T = leapDays y" using y by (simp add: InLeapYear_def)
qed

lemma month_of_first_day:
  assumes "0 \<le> m" and "m \<le> 11" and "InLeapYear T = 0 \<or> InLeapYear T = 1"
    and "DayWithinYear T = firstDayOfMonth m (InLeapYear T)"
  shows "MonthFromTime T = m" and "DateFromTime T = 1"
proof -
  from assms(1,2) have "m = 0 \<or> m = 1 \<or> m = 2 \<or> m = 3 \<or> m = 4 \<or> m = 5 \<or> m = 6
      \<or> m = 7 \<or> m = 8 \<or> m = 9 \<or> m = 10 \<or> m = 11" by presburger
  then show m: "MonthFromTime T = m"
    using assms(3,4)
    by (elim disjE) (simp_all add: MonthFromTime_def firstDayOfMonth_def Let_def)
  show "DateFromTime T = 1" by (simp add: DateFromTime_def m assms(4))
qed

lemma new_year_iff:
  "DayWithinYear t = 0 \<longleftrightarrow> MonthFromTime t = 0 \<and> DateFromTime t = 1"
proof
  assume z: "DayWithinYear t = 0"
  then have "MonthFromTime t = 0" by (simp add: MonthFromTime_def Let_def)
  with z show "MonthFromTime t = 0 \<and> DateFromTime t = 1"
    by (simp add: DateFromTime_def firstDayOfMonth_def)
next
  assume "MonthFromTime t = 0 \<and> DateFromTime t = 1"
  then show "DayWithinYear t = 0" by (simp add: DateFromTime_def firstDayOfMonth_def)
qed

lemma WeekDay_range: "0 \<le> WeekDay t" "WeekDay t \<le> 6"
  by (simp_all add: WeekDay_def)

subsection \<open>Time zones\<close>

lemma fixedOffset_regular: "regularZone (fixedOffset tza)"
proof -
  have "k \<le> Day (u + tza) \<longleftrightarrow> k * msPerDay - tza \<le> u" for k u
    using le_Day_iff [of k "u + tza"] by (simp add: algebra_simps)
  then show ?thesis
    by (simp add: regularZone_def LocalTime_def UTC_def fixedOffset_def)
qed

lemma local_midnight:
  assumes "regularZone tz"
  shows "LocalTime tz (UTC tz (k * msPerDay)) = k * msPerDay"
  using assms by (simp add: regularZone_def)

lemma midnight_le_iff:
  assumes "regularZone tz"
  shows "UTC tz (k * msPerDay) \<le> ts \<longleftrightarrow> k \<le> Day (LocalTime tz ts)"
  using assms by (simp add: regularZone_def)

lemma same_day:
  assumes "regularZone tz"
  shows "Day (LocalTime tz (UTC tz m)) = Day m"
  using assms by (simp add: regularZone_def)







subsection \<open>The start of each window\<close>

lemma startTime_PDay:
  assumes "100 \<le> getFullYear tz now"
  shows "startTime tz now PDay = UTC tz (Day (LocalTime tz now) * msPerDay)"
  using assms
  by (simp add: startTime_def newDate_def getFullYear_def getMonth_def getDate_def
      MakeDay_current MakeDate_def MakeTime_def)

lemma startTime_PMonth:
  assumes "100 \<le> getFullYear tz now"
  shows "startTime tz now PMonth
           = UTC tz ((Day (LocalTime tz now) - DateFromTime (LocalTime tz now) + 1) * msPerDay)"
  using assms
  by (simp add: startTime_def newDate_def getFullYear_def getMonth_def
      MakeDay_current MakeDate_def MakeTime_def)

lemma startTime_PYear:
  assumes "100 \<le> getFullYear tz now"
  shows "startTime tz now PYear
           = UTC tz ((Day (LocalTime tz now) - DayWithinYear (LocalTime tz now)) * msPerDay)"
  using assms
  by (simp add: startTime_def newDate_def getFullYear_def
      MakeDay_january MakeDate_def MakeTime_def DayWithinYear_def)

lemma startTime_PWeek:
  assumes "regularZone tz"
  shows "startTime tz now PWeek
           = UTC tz ((Day (LocalTime tz now) - WeekDay (LocalTime tz now)) * msPerDay)"
proof -
  let ?L = "LocalTime tz now"
  let ?k = "Day ?L - WeekDay ?L"
  let ?m = "MakeDate ?k (TimeWithinDay ?L)"
  have set: "setDate tz now (getDate tz now - getDay tz now) = UTC tz ?m"
    by (simp add: setDate_def getDate_def getDay_def Let_def MakeDay_current)
  have "Day (LocalTime tz (UTC tz ?m)) = Day ?m"
    using assms by (rule same_day)
  also have "\<dots> = ?k"
    using Day_MakeDate [OF TimeWithinDay_range, of ?k ?L] .
  finally have "setHours tz (UTC tz ?m) 0 0 0 0 = UTC tz (?k * msPerDay)"
    by (simp add: setHours_def Let_def MakeTime_def MakeDate_def)
  then show ?thesis by (simp add: startTime_def set)
qed

lemma startTime_PAll: "startTime tz now PAll = 0"
  by (simp add: startTime_def)

text \<open>
  In a regular time zone, read in local time, the \<open>day\<close> window starts at 00:00:00.000 of
  the current day; the \<open>week\<close> window at 00:00:00.000 of the most recent Sunday (today
  when today is a Sunday); the \<open>month\<close> window at 00:00:00.000 of the first day of the
  current month; the \<open>year\<close> window at 00:00:00.000 of January 1 of the current year; and
  the \<open>all\<close> window at the epoch.
\<close>

lemma window_starts:
  assumes "regularZone tz" and "100 \<le> getFullYear tz now"
  shows "(TimeWithinDay (LocalTime tz (startTime tz now PDay)) = 0
          \<and> Day (LocalTime tz (startTime tz now PDay)) = Day (LocalTime tz now))
       \<and> (TimeWithinDay (LocalTime tz (startTime tz now PWeek)) = 0
          \<and> getDay tz (startTime tz now PWeek) = 0
          \<and> Day (LocalTime tz now) - 6 \<le> Day (LocalTime tz (startTime tz now PWeek))
          \<and> Day (LocalTime tz (startTime tz now PWeek)) \<le> Day (LocalTime tz now)
          \<and> (if getDay tz now = 0 then startTime tz now PWeek = startTime tz now PDay
              else startTime tz now PWeek < startTime tz now PDay))
       \<and> (TimeWithinDay (LocalTime tz (startTime tz now PMonth)) = 0
          \<and> getDate tz (startTime tz now PMonth) = 1
          \<and> getMonth tz (startTime tz now PMonth) = getMonth tz now
          \<and> getFullYear tz (startTime tz now PMonth) = getFullYear tz now)
       \<and> (TimeWithinDay (LocalTime tz (startTime tz now PYear)) = 0
          \<and> getDate tz (startTime tz now PYear) = 1
          \<and> getMonth tz (startTime tz now PYear) = 0
          \<and> getFullYear tz (startTime tz now PYear) = getFullYear tz now)
       \<and> startTime tz now PAll = 0"
proof -
  note reg = assms(1) and yr = assms(2)
  let ?n = "LocalTime tz now"
  let ?Y = "YearFromTime ?n"
  let ?M = "MonthFromTime ?n"
  have day: "TimeWithinDay (LocalTime tz (startTime tz now PDay)) = 0
          \<and> Day (LocalTime tz (startTime tz now PDay)) = Day ?n"
    by (simp add: startTime_PDay [OF yr] local_midnight [OF reg] Day_midnight)
  have week: "TimeWithinDay (LocalTime tz (startTime tz now PWeek)) = 0
          \<and> getDay tz (startTime tz now PWeek) = 0
          \<and> Day ?n - 6 \<le> Day (LocalTime tz (startTime tz now PWeek))
          \<and> Day (LocalTime tz (startTime tz now PWeek)) \<le> Day ?n
          \<and> (if getDay tz now = 0 then startTime tz now PWeek = startTime tz now PDay
              else startTime tz now PWeek < startTime tz now PDay)"
  proof -
    let ?k = "Day ?n - WeekDay ?n"
    have sunday: "(?k + 4) mod 7 = 0"
      unfolding WeekDay_def by presburger
    have before: "UTC tz (?k * msPerDay) < UTC tz (Day ?n * msPerDay)" if "WeekDay ?n \<noteq> 0"
    proof -
      have "\<not> Day ?n \<le> Day (LocalTime tz (UTC tz (?k * msPerDay)))"
        using that WeekDay_range [of ?n] by (simp add: local_midnight [OF reg] Day_midnight)
      then show ?thesis by (simp add: midnight_le_iff [OF reg, symmetric])
    qed
    show ?thesis
      using WeekDay_range [of ?n] sunday before
      by (simp add: startTime_PWeek [OF reg] startTime_PDay [OF yr] local_midnight [OF reg] Day_midnight
          getDay_def WeekDay_def [of "?k * msPerDay"] Day_midnight)
  qed
  have leap: "InLeapYear ?n = 0 \<or> InLeapYear ?n = 1"
    by (simp add: InLeapYear_def leapDays_def)
  have month: "TimeWithinDay (LocalTime tz (startTime tz now PMonth)) = 0
          \<and> getDate tz (startTime tz now PMonth) = 1
          \<and> getMonth tz (startTime tz now PMonth) = getMonth tz now
          \<and> getFullYear tz (startTime tz now PMonth) = getFullYear tz now"
  proof -
    let ?T = "LocalTime tz (startTime tz now PMonth)"
    let ?k = "firstDayOfMonth ?M (InLeapYear ?n)"
    have d: "Day ?T = DayFromYear ?Y + ?k"
      by (simp add: startTime_PMonth [OF yr] local_midnight [OF reg] Day_midnight DateFromTime_def
          DayWithinYear_def)
    have k: "0 \<le> ?k" "?k < 365 + leapDays ?Y"
      using leap firstDayOfMonth_le [of ?n] DayWithinYear_bounds(2) [of ?n]
      by (auto intro: firstDayOfMonth_nonneg simp: InLeapYear_def)
    from year_of_day [OF d k]
    have y: "YearFromTime ?T = ?Y" and w: "DayWithinYear ?T = ?k"
      and l: "InLeapYear ?T = InLeapYear ?n"
      by (simp_all add: InLeapYear_def)
    have "MonthFromTime ?T = ?M" "DateFromTime ?T = 1"
      using month_of_first_day [of ?M ?T] MonthFromTime_range [of ?n] leap w l by simp_all
    with y show ?thesis
      by (simp add: getDate_def getMonth_def getFullYear_def
          startTime_PMonth [OF yr] local_midnight [OF reg] Day_midnight)
  qed
  have year: "TimeWithinDay (LocalTime tz (startTime tz now PYear)) = 0
          \<and> getDate tz (startTime tz now PYear) = 1
          \<and> getMonth tz (startTime tz now PYear) = 0
          \<and> getFullYear tz (startTime tz now PYear) = getFullYear tz now"
  proof -
    let ?T = "LocalTime tz (startTime tz now PYear)"
    have d: "Day ?T = DayFromYear ?Y + 0"
      by (simp add: startTime_PYear [OF yr] local_midnight [OF reg] Day_midnight DayWithinYear_def)
    have k: "(0::int) \<le> 0" "0 < 365 + leapDays ?Y"
      by (simp_all add: leapDays_def)
    from year_of_day [OF d k]
    have y: "YearFromTime ?T = ?Y" and w: "DayWithinYear ?T = 0" by simp_all
    from w have "MonthFromTime ?T = 0 \<and> DateFromTime ?T = 1" by (simp add: new_year_iff)
    with y show ?thesis
      by (simp add: getDate_def getMonth_def getFullYear_def
          startTime_PYear [OF yr] local_midnight [OF reg] Day_midnight)
  qed
  from day week month year startTime_PAll [of tz now] show ?thesis by blast
qed

subsection \<open>Records that are part of a report\<close>









subsection \<open>A record inside every window\<close>

lemma eastern_november_8:
  "startTime easternTime2023 1699462800000 PDay = 1699419600000"
  "startTime easternTime2023 1699462800000 PWeek = 1699156800000"
  "startTime easternTime2023 1699462800000 PMonth = 1698811200000"
  "startTime easternTime2023 1699462800000 PYear = 1672549200000"
  "startTime easternTime2023 1699462800000 PAll = 0"
  by code_simp+

lemma inherited_name_unreported:
  "aggregate
     [\<lparr>record_id = 1, username = ''constructor'', timestamp = 1699460000000,
       originalTokenCount = 100, optimizedTokenCount = 40, savings = 60\<rparr>]
     [\<lparr>execution_id = 1, execution_username = ''constructor'',
       execution_timestamp = 1699460000000, promptType = optimized,
       promptText = ''p'', resultText = ''r''\<rparr>]
   = Inr []"
  by (simp add: report_eval)

text \<open>
  Claim C3 says that a record is part of the report if and only if its time stamp is not
  before the start of the window. The starts of the five windows are as the claim says (in
  New York on Wednesday, November 8, 2023, at noon, they are the midnights of November 8,
  of Sunday, November 5, of November 1 and of January 1, and the epoch), but the code
  misses the inclusion for a user called \<open>constructor\<close>: an analysis record and an
  execution record of that user, both of 11:13 on the same day and so inside all five
  windows, pass the filter and are part of none of the five reports, which come back
  empty.
\<close>

theorem window_inherited_name:
  "map (startTime easternTime2023 1699462800000) [PDay, PWeek, PMonth, PYear, PAll]
     = [1699419600000, 1699156800000, 1698811200000, 1672549200000, 0]
   \<and> map (calculateReportData easternTime2023 1699462800000
        [\<lparr>record_id = 1, username = ''constructor'', timestamp = 1699460000000,
          originalTokenCount = 100, optimizedTokenCount = 40, savings = 60\<rparr>]
        [\<lparr>execution_id = 1, execution_username = ''constructor'',
          execution_timestamp = 1699460000000, promptType = optimized,
          promptText = ''p'', resultText = ''r''\<rparr>])
       [PDay, PWeek, PMonth, PYear, PAll]
     = [Inr [], Inr [], Inr [], Inr [], Inr []]"
  by (simp add: calculateReportData_def Let_def eastern_november_8 inherited_name_unreported)

subsection \<open>Yesterday's records\<close>





section \<open>Properties of the export\<close>

subsection \<open>Digits\<close>

lemma digit_props:
  assumes "0 \<le> d" and "d < 10"
  shows "isDigit (digit d)" and "digitValue (digit d) = d"
proof -
  have "(48 + d) mod 256 = 48 + d" using assms by simp
  then have "(of_char (char_of (48 + d)) :: int) = 48 + d" by (simp add: of_char_of)
  then show "isDigit (digit d)" and "digitValue (digit d) = d"
    using assms by (simp_all add: isDigit_def digitValue_def digit_def)
qed

lemma decimalValue_snoc: "decimalValue (s @ [c]) = 10 * decimalValue s + digitValue c"
  by (simp add: decimalValue_def)

lemma decimalValue_zeros: "decimalValue (replicate j CHR ''0'' @ s) = decimalValue s"
proof -
  have "foldl (\<lambda>n c. 10 * n + digitValue c) 0 (replicate j CHR ''0'') = 0"
    by (induction j) (simp_all add: digitValue_def)
  then show ?thesis by (simp add: decimalValue_def)
qed

lemma decimal_digits: "0 \<le> n \<Longrightarrow> list_all isDigit (decimal n) \<and> decimal n \<noteq> []"
proof (induction n rule: decimal.induct)
  case (1 n)
  show ?case
  proof (cases "n < 10")
    case True
    with "1.prems" show ?thesis by (simp add: decimal.simps [of n] digit_props)
  next
    case False
    then have "0 \<le> n div 10" "0 \<le> n mod 10" "n mod 10 < 10" by simp_all
    with False "1.IH" show ?thesis by (simp add: decimal.simps [of n] digit_props)
  qed
qed

lemma decimalValue_decimal: "0 \<le> n \<Longrightarrow> decimalValue (decimal n) = n"
proof (induction n rule: decimal.induct)
  case (1 n)
  show ?case
  proof (cases "n < 10")
    case True
    with "1.prems" show ?thesis
      by (simp add: decimal.simps [of n] digit_props decimalValue_def)
  next
    case False
    then have "0 \<le> n div 10" "0 \<le> n mod 10" "n mod 10 < 10" by simp_all
    with False "1.IH" show ?thesis
      by (simp add: decimal.simps [of n] digit_props decimalValue_snoc)
  qed
qed

subsection \<open>Fields and rows\<close>

lemma singleQuotes_other:
  "c \<noteq> CHR 0x22 \<Longrightarrow> singleQuotes (c # s) = c # singleQuotes s"
  by (cases s) simp_all

lemma singleQuotes_doubleQuotes: "singleQuotes (doubleQuotes user) = user"
proof (induction user)
  case Nil
  then show ?case by (simp add: doubleQuotes_def)
next
  case (Cons c user)
  then show ?case
    by (cases "c = CHR 0x22") (simp_all add: doubleQuotes_def singleQuotes_other)
qed

lemma Number_toFixed_shape:
  "\<exists>ip fp. Number_toFixed 6 x = (if x < 0 then ''-'' else '''') @ ip @ ''.'' @ fp
     \<and> length fp = 6 \<and> ip \<noteq> [] \<and> list_all isDigit (ip @ fp)
     \<and> decimalValue (ip @ fp) = \<lfloor>\<bar>x\<bar> * 10 ^ 6 + 1 / 2\<rfloor>"
proof -
  define n where "n = \<lfloor>\<bar>x\<bar> * 10 ^ 6 + 1 / 2\<rfloor>"
  define m where "m = (if length (decimal n) \<le> 6
                        then replicate (6 + 1 - length (decimal n)) CHR ''0'' @ decimal n
                        else decimal n)"
  have n: "0 \<le> n" unfolding n_def by simp
  have len: "7 \<le> length m" by (simp add: m_def)
  have zero: "isDigit CHR ''0''" by (simp add: isDigit_def)
  have digits: "list_all isDigit m"
    using decimal_digits [OF n] zero by (simp add: m_def list_all_iff)
  have val: "decimalValue m = n"
    using decimalValue_decimal [OF n] by (simp add: m_def decimalValue_zeros)
  have eq: "Number_toFixed 6 x
              = (if x < 0 then ''-'' else '''') @ take (length m - 6) m @ ''.'' @ drop (length m - 6) m"
    by (simp add: Number_toFixed_def Let_def n_def m_def)
  show ?thesis
  proof (intro exI conjI)
    show "Number_toFixed 6 x
            = (if x < 0 then ''-'' else '''') @ take (length m - 6) m @ ''.'' @ drop (length m - 6) m"
      by (rule eq)
    show "length (drop (length m - 6) m) = 6" using len by simp
    show "take (length m - 6) m \<noteq> []" using len by auto
    show "list_all isDigit (take (length m - 6) m @ drop (length m - 6) m)"
      using digits by simp
    show "decimalValue (take (length m - 6) m @ drop (length m - 6) m) = \<lfloor>\<bar>x\<bar> * 10 ^ 6 + 1 / 2\<rfloor>"
      using val by (simp add: n_def)
  qed
qed

lemma Object_entries_mset: "mset (Object_entries data) = mset data"
  by (simp add: Object_entries_def)

lemma Object_entries_plain:
  "\<forall>(k, v) \<in> set data. \<not> isArrayIndex k \<Longrightarrow> Object_entries data = data"
proof -
  assume a: "\<forall>(k, v) \<in> set data. \<not> isArrayIndex k"
  then have "filter (\<lambda>(k, v). isArrayIndex k) data = []"
    by (auto simp: filter_empty_conv)
  moreover from a have "filter (\<lambda>(k, v). \<not> isArrayIndex k) data = data"
    by (auto simp: filter_id_conv)
  ultimately show ?thesis by (simp add: Object_entries_def)
qed

lemma Object_keys_empty: "Object_keys data = [] \<longleftrightarrow> data = []"
proof -
  have "length (Object_entries data) = length data"
    using Object_entries_mset [of data] by (metis size_mset)
  then show ?thesis by (simp add: Object_keys_def flip: length_0_conv)
qed

text \<open>
  Claim C9. The export of an empty report downloads nothing: it shows the alert
  \<open>No data to export.\<close> and returns. The export of a report with entries downloads a
  text whose first line is the header \<open>User, Total Prompts, Total Executions, Total
  Original Tokens, Total Optimized Tokens, Total Savings, Estimated Cost Savings ($)\<close>,
  followed by one line per entry of the report in the order of its keys (the order of
  \<open>Object.entries\<close>, which is the order of the report when no user name is an array
  index). Each line holds the user name between double quotes, with every double quote of
  the name written twice, the five counts, and \<open>estimatedCostSavings\<close> with six decimal
  places, rounded to the nearest millionth.
\<close>

theorem exportReportToCsv_format:
  "exportReportToCsv [] = Alert ''No data to export.''
   \<and> (data \<noteq> [] \<longrightarrow>
        exportReportToCsv data
          = Download ''prompt-optimizer-report.csv''
              (join [CHR 0x0A]
                 (''User,Total Prompts,Total Executions,Total Original Tokens,Total Optimized Tokens,Total Savings,Estimated Cost Savings ($)''
                  # map (\<lambda>entry. join '','' (row entry)) (Object_entries data))))
   \<and> mset (Object_entries data) = mset data
   \<and> length (map (\<lambda>entry. join '','' (row entry)) (Object_entries data)) = length data
   \<and> ((\<forall>(k, v) \<in> set data. \<not> isArrayIndex k) \<longrightarrow> Object_entries data = data)
   \<and> join '','' (row (user, userData))
        = [CHR 0x22] @ doubleQuotes user @ [CHR 0x22]
          @ '','' @ Number_toString (totalPrompts userData)
          @ '','' @ Number_toString (totalExecutions userData)
          @ '','' @ Number_toString (totalOriginalTokens userData)
          @ '','' @ Number_toString (totalOptimizedTokens userData)
          @ '','' @ Number_toString (totalSavings userData)
          @ '','' @ Number_toFixed 6 (estimatedCostSavings userData)
   \<and> length headers = 7 \<and> length (row (user, userData)) = 7
   \<and> singleQuotes (doubleQuotes user) = user
   \<and> (\<bar>x\<bar> < 10 ^ 21 \<longrightarrow>
        (\<exists>ip fp. Number_toFixed 6 x = (if x < 0 then ''-'' else '''') @ ip @ ''.'' @ fp
           \<and> length fp = 6 \<and> ip \<noteq> [] \<and> list_all isDigit (ip @ fp)
           \<and> decimalValue (ip @ fp) = \<lfloor>\<bar>x\<bar> * 10 ^ 6 + 1 / 2\<rfloor>))"
proof -
  have empty: "exportReportToCsv [] = Alert ''No data to export.''"
    by (simp add: exportReportToCsv_def Object_keys_empty)
  have head: "join '','' headers = ''User,Total Prompts,Total Executions,Total Original Tokens,Total Optimized Tokens,Total Savings,Estimated Cost Savings ($)''"
    by (simp add: headers_def)
  have download: "exportReportToCsv data
          = Download ''prompt-optimizer-report.csv''
              (join [CHR 0x0A]
                 (''User,Total Prompts,Total Executions,Total Original Tokens,Total Optimized Tokens,Total Savings,Estimated Cost Savings ($)''
                  # map (\<lambda>entry. join '','' (row entry)) (Object_entries data)))"
    if "data \<noteq> []"
    using that unfolding exportReportToCsv_def Let_def head
    by (simp add: Object_keys_empty comp_def)
  have perm: "mset (Object_entries data) = mset data"
    by (rule Object_entries_mset)
  have len: "length (map (\<lambda>entry. join '','' (row entry)) (Object_entries data)) = length data"
    using perm by (metis length_map size_mset)
  have plain: "(\<forall>(k, v) \<in> set data. \<not> isArrayIndex k) \<longrightarrow> Object_entries data = data"
    using Object_entries_plain [of data] by blast
  have line: "join '','' (row (user, userData))
        = [CHR 0x22] @ doubleQuotes user @ [CHR 0x22]
          @ '','' @ Number_toString (totalPrompts userData)
          @ '','' @ Number_toString (totalExecutions userData)
          @ '','' @ Number_toString (totalOriginalTokens userData)
          @ '','' @ Number_toString (totalOptimizedTokens userData)
          @ '','' @ Number_toString (totalSavings userData)
          @ '','' @ Number_toFixed 6 (estimatedCostSavings userData)"
    by (simp add: row_def)
  have columns: "length headers = 7 \<and> length (row (user, userData)) = 7"
    by (simp add: headers_def row_def)
  from empty download perm len plain line columns singleQuotes_doubleQuotes [of user]
    Number_toFixed_shape [of x]
  show ?thesis by blast
qed

theorem exportReportToCsv_format_witness:
  "exportReportToCsv
     [(''Bob \"B\"'', \<lparr>totalPrompts = 2, totalOriginalTokens = 220, totalOptimizedTokens = 140,
                      totalSavings = 80, totalExecutions = 1,
                      estimatedCostSavings = binary64 (28 / 1000000)\<rparr>)]
     = Download ''prompt-optimizer-report.csv''
         (''User,Total Prompts,Total Executions,Total Original Tokens,Total Optimized Tokens,Total Savings,Estimated Cost Savings ($)''
          @ [CHR 0x0A] @ ''\"Bob \"\"B\"\"\",2,1,220,140,80,0.000028'')
   \<and> \<bar>binary64 (28 / 1000000)\<bar> < 10 ^ 21
   \<and> Number_toFixed 6 (binary64 (28 / 1000000)) = ''0.000028''"
proof -
  let ?r = "\<lparr>totalPrompts = 2, totalOriginalTokens = 220, totalOptimizedTokens = 140,
             totalSavings = 80, totalExecutions = 1,
             estimatedCostSavings = binary64 (28 / 1000000)\<rparr>"
  have nonempty: "[(''Bob \"B\"'', ?r)] \<noteq> []" by simp
  have plain: "\<forall>(k, v) \<in> set [(''Bob \"B\"'', ?r)]. \<not> isArrayIndex k"
    by (simp add: isArrayIndex_def isDigit_def)
  have small: "\<bar>binary64 (28 / 1000000)\<bar> < 10 ^ 21" by code_simp
  have fixed: "Number_toFixed 6 (binary64 (28 / 1000000)) = ''0.000028''" by code_simp
  have nums: "Number_toString 2 = ''2''" "Number_toString 1 = ''1''"
    "Number_toString 220 = ''220''" "Number_toString 140 = ''140''" "Number_toString 80 = ''80''"
    by code_simp+
  from exportReportToCsv_format [of "[(''Bob \"B\"'', ?r)]" "''Bob \"B\"''" ?r
      "binary64 (28 / 1000000)"] nonempty plain small fixed nums
  show ?thesis by (simp add: doubleQuotes_def)
qed

end
